theory Spec2Isabelle
  imports Main "HOL-Library.Word"
begin

unbundle bit_operations_syntax

section \<open>Bytes, buffers and thrown values\<close>

text \<open>
  A Node \<open>Buffer\<close> (and a \<open>Uint8Array\<close>) is a list of 8-bit words. A thrown value is
  either an \<open>Error\<close> instance carrying its message, or any other thrown value: the
  catch block of \<open>decodePayload\<close> tells the two apart with \<open>instanceof Error\<close>.
  A function that can throw returns \<open>exn + 'a\<close>, \<open>Inl\<close> being the thrown value.
  Strings are \<open>char\<close> lists; text outside ASCII stands in its UTF-8 encoding.
\<close>

type_synonym byte = "8 word"
type_synonym buffer = "byte list"

datatype exn = Error string | NonError

definition bindE :: "exn + 'a \<Rightarrow> ('a \<Rightarrow> exn + 'b) \<Rightarrow> exn + 'b" where
  "bindE m f = (case m of Inl e \<Rightarrow> Inl e | Inr v \<Rightarrow> f v)"

text \<open>\<open>buf[i]\<close>: \<open>undefined\<close> (here \<open>None\<close>) at and beyond the end.\<close>

definition byteAt :: "buffer \<Rightarrow> nat \<Rightarrow> byte option" where
  "byteAt buf i = (if i < length buf then Some (buf ! i) else None)"

text \<open>\<open>buf.subarray(a, b)\<close> for \<open>0 \<le> a\<close>: both ends are clamped to the buffer.\<close>

definition subarray :: "buffer \<Rightarrow> nat \<Rightarrow> nat \<Rightarrow> buffer" where
  "subarray buf a b = take (b - a) (drop a buf)"

subsection \<open>Hexadecimal text\<close>

definition hexDigit :: "nat \<Rightarrow> char" where
  "hexDigit n = ''0123456789abcdef'' ! n"

definition byteHex :: "byte \<Rightarrow> string" where
  "byteHex b = [hexDigit (unat b div 16), hexDigit (unat b mod 16)]"

text \<open>\<open>buf.toString('hex')\<close>\<close>

definition toHex :: "buffer \<Rightarrow> string" where
  "toHex buf = concat (map byteHex buf)"

definition hexVal :: "char \<Rightarrow> nat option" where
  "hexVal c =
     (let n = (of_char c :: nat) in
      if 48 \<le> n \<and> n \<le> 57 then Some (n - 48)
      else if 97 \<le> n \<and> n \<le> 102 then Some (n - 87)
      else if 65 \<le> n \<and> n \<le> 70 then Some (n - 55)
      else None)"

text \<open>
  \<open>Buffer.from(s, 'hex')\<close>: two digits make a byte; decoding stops at the first pair
  that is not two hex digits, and a trailing single character is dropped.
\<close>

fun fromHex :: "string \<Rightarrow> buffer" where
  "fromHex (c1 # c2 # cs) =
     (case hexVal c1 of
        None \<Rightarrow> []
      | Some h \<Rightarrow> (case hexVal c2 of
                     None \<Rightarrow> []
                   | Some l \<Rightarrow> word_of_nat (16 * h + l) # fromHex cs))"
| "fromHex cs = []"

subsection \<open>Decimal text\<close>

definition digitChar :: "nat \<Rightarrow> char" where
  "digitChar n = ''0123456789'' ! n"

text \<open>\<open>n.toString()\<close> of a non-negative integer.\<close>

fun decimalNat :: "nat \<Rightarrow> string" where
  "decimalNat n =
     (if n < 10 then [digitChar n] else decimalNat (n div 10) @ [digitChar (n mod 10)])"

declare decimalNat.simps [simp del]

text \<open>\<open>i.toString()\<close> of a \<open>bigint\<close>, or of a \<open>number\<close> holding an integer.\<close>

definition decimal :: "int \<Rightarrow> string" where
  "decimal i = (if i < 0 then CHR ''-'' # decimalNat (nat (- i)) else decimalNat (nat i))"

definition digitVal :: "char \<Rightarrow> nat option" where
  "digitVal c =
     (let n = (of_char c :: nat) in if 48 \<le> n \<and> n \<le> 57 then Some (n - 48) else None)"

fun digitsValue :: "nat \<Rightarrow> string \<Rightarrow> nat option" where
  "digitsValue acc [] = Some acc"
| "digitsValue acc (c # cs) =
     (case digitVal c of None \<Rightarrow> None | Some d \<Rightarrow> digitsValue (10 * acc + d) cs)"

text \<open>The integer written by an optional minus sign and one or more decimal digits.\<close>

definition parseDecimal :: "string \<Rightarrow> int option" where
  "parseDecimal s =
     (case s of
        [] \<Rightarrow> None
      | c # cs \<Rightarrow>
          if c = CHR ''-''
          then (if cs = [] then None else map_option (\<lambda>n. - int n) (digitsValue 0 cs))
          else map_option int (digitsValue 0 s))"

subsection \<open>Fixed-width integers in a buffer\<close>

definition beNat :: "buffer \<Rightarrow> nat" where
  "beNat bs = foldl (\<lambda>acc b. acc * 256 + unat b) 0 bs"

fun leNat :: "buffer \<Rightarrow> nat" where
  "leNat [] = 0"
| "leNat (b # bs) = unat b + 256 * leNat bs"

text \<open>
  Node's \<open>readUInt8\<close>, \<open>readUInt16BE\<close>, \<open>readUInt32BE\<close>, \<open>readBigUInt64BE\<close> (width
  \<open>n\<close> = 1, 2, 4, 8): a \<open>RangeError\<close> unless the \<open>n\<close> bytes at \<open>off\<close> lie inside the
  buffer.
\<close>

definition readUIntBE :: "nat \<Rightarrow> buffer \<Rightarrow> nat \<Rightarrow> exn + nat" where
  "readUIntBE n buf off =
     (if off + n \<le> length buf then Inr (beNat (take n (drop off buf)))
      else Inl (Error ''Attempt to access memory outside buffer bounds''))"

text \<open>\<open>readUInt16LE\<close> and \<open>readUInt32LE\<close> (width 2 and 4).\<close>

definition readUIntLE :: "nat \<Rightarrow> buffer \<Rightarrow> nat \<Rightarrow> exn + nat" where
  "readUIntLE n buf off =
     (if off + n \<le> length buf then Inr (leNat (take n (drop off buf)))
      else Inl (Error ''Attempt to access memory outside buffer bounds''))"

text \<open>\<open>readBigInt64BE\<close>: the eight bytes as a two's complement number.\<close>

definition signed64 :: "nat \<Rightarrow> int" where
  "signed64 u = (if u < 2 ^ 63 then int u else int u - 2 ^ 64)"

definition readBigInt64BE :: "buffer \<Rightarrow> nat \<Rightarrow> exn + int" where
  "readBigInt64BE buf off = bindE (readUIntBE 8 buf off) (\<lambda>u. Inr (signed64 u))"

section \<open>Values of the JavaScript runtime and external libraries\<close>

text \<open>
  What \<open>cbor-x\<close> hands back: \<open>JInt\<close> is a \<open>number\<close> holding an integer, \<open>JFloat\<close> any
  other \<open>number\<close> except \<open>NaN\<close> (opaque), \<open>JBytes\<close> a \<open>Buffer\<close> or \<open>Uint8Array\<close>,
  \<open>JObject\<close> any other object (a map, a tagged value; opaque).
\<close>

datatype jsval =
    JUndefined
  | JNull
  | JBool bool
  | JInt int
  | JFloat nat
  | JNaN
  | JBigInt int
  | JString string
  | JBytes buffer
  | JArray "jsval list"
  | JObject nat

text \<open>The fields of \<open>btc.Network\<close> that the address codec reads.\<close>

record network =
  pubKeyHash :: nat
  scriptHash :: nat
  bech32 :: string

text \<open>What the reveal parser reads of a \<open>btc.Transaction\<close>: the witness stack of each input.\<close>

record txInput =
  witness :: "buffer list"

record transaction =
  ins :: "txInput list"

text \<open>
  The primitives of the third-party libraries and of the JavaScript runtime that the
  program calls and that are not part of it. They are parameters of the model.
  \<^item> \<open>cborDecode\<close>, \<open>cborEncode\<close>: \<open>decode\<close> and \<open>encode\<close> of \<open>cbor-x\<close>;
  \<^item> \<open>utf8Decode\<close>: \<open>buf.toString('utf8')\<close>; \<open>utf8Encode\<close>: \<open>Buffer.from(s, 'utf8')\<close>;
  \<^item> \<open>bufferFrom\<close>: \<open>Buffer.from(v)\<close> for a value that is no byte array;
  \<^item> \<open>valueToString\<close>: \<open>v.toString()\<close> for a float, a number of \<open>10^21\<close> or more, a byte
    array, an array or an object;
  \<^item> \<open>bigIntOther\<close>: \<open>BigInt(s)\<close> for a string that is not plain signed decimal digits;
  \<^item> \<open>lowerTrim\<close>: \<open>s.toLowerCase().trim()\<close>;
  \<^item> \<open>idPrefixOther\<close>: the bytes the re-framing step of the ord/xcp envelope builds from
    a message-type id that is not an integer \<open>number\<close> (JavaScript coercions);
  \<^item> \<open>p2pkh\<close> ... \<open>p2tr\<close>: \<open>btc.payments.*({hash, network}).address\<close>, which may throw or
    be \<open>undefined\<close>;
  \<^item> \<open>txFromBuffer\<close>: \<open>btc.Transaction.fromBuffer\<close>.
\<close>

record runtime =
  cborDecode :: "buffer \<Rightarrow> exn + jsval"
  cborEncode :: "jsval \<Rightarrow> exn + buffer"
  utf8Decode :: "buffer \<Rightarrow> string"
  utf8Encode :: "string \<Rightarrow> buffer"
  bufferFrom :: "jsval \<Rightarrow> exn + buffer"
  valueToString :: "jsval \<Rightarrow> string"
  bigIntOther :: "string \<Rightarrow> exn + int"
  lowerTrim :: "string \<Rightarrow> string"
  idPrefixOther :: "jsval \<Rightarrow> exn + buffer"
  p2pkh :: "buffer \<Rightarrow> network \<Rightarrow> exn + string option"
  p2sh :: "buffer \<Rightarrow> network \<Rightarrow> exn + string option"
  p2wpkh :: "buffer \<Rightarrow> network \<Rightarrow> exn + string option"
  p2wsh :: "buffer \<Rightarrow> network \<Rightarrow> exn + string option"
  p2tr :: "buffer \<Rightarrow> network \<Rightarrow> exn + string option"
  txFromBuffer :: "buffer \<Rightarrow> exn + transaction"

text \<open>JavaScript truthiness.\<close>

definition truthy :: "jsval \<Rightarrow> bool" where
  "truthy v =
     (case v of
        JUndefined \<Rightarrow> False
      | JNull \<Rightarrow> False
      | JBool b \<Rightarrow> b
      | JInt n \<Rightarrow> n \<noteq> 0
      | JFloat _ \<Rightarrow> True
      | JNaN \<Rightarrow> False
      | JBigInt n \<Rightarrow> n \<noteq> 0
      | JString s \<Rightarrow> s \<noteq> []
      | JBytes _ \<Rightarrow> True
      | JArray _ \<Rightarrow> True
      | JObject _ \<Rightarrow> True)"

text \<open>\<open>decoded[i]\<close> on an array: \<open>undefined\<close> beyond the end.\<close>

definition element :: "jsval list \<Rightarrow> nat \<Rightarrow> jsval" where
  "element xs i = (if i < length xs then xs ! i else JUndefined)"

text \<open>
  \<open>v.toString()\<close>. A \<open>number\<close> prints its integer value in plain digits below
  \<open>10^21\<close> and in exponent notation from there on (left to the runtime).
\<close>

definition jsToString :: "runtime \<Rightarrow> jsval \<Rightarrow> string" where
  "jsToString rt v =
     (case v of
        JInt n \<Rightarrow> if \<bar>n\<bar> < 10 ^ 21 then decimal n else valueToString rt v
      | JBigInt n \<Rightarrow> decimal n
      | JString s \<Rightarrow> s
      | JBool b \<Rightarrow> (if b then ''true'' else ''false'')
      | JNaN \<Rightarrow> ''NaN''
      | _ \<Rightarrow> valueToString rt v)"

text \<open>\<open>v?.toString()\<close>: \<open>undefined\<close> (here \<open>None\<close>) for \<open>null\<close> and \<open>undefined\<close>.\<close>

definition optToString :: "runtime \<Rightarrow> jsval \<Rightarrow> string option" where
  "optToString rt v =
     (case v of JUndefined \<Rightarrow> None | JNull \<Rightarrow> None | _ \<Rightarrow> Some (jsToString rt v))"

text \<open>\<open>Buffer.isBuffer(v) ? v : Buffer.from(v)\<close>\<close>

definition bufferOf :: "runtime \<Rightarrow> jsval \<Rightarrow> exn + buffer" where
  "bufferOf rt v = (case v of JBytes b \<Rightarrow> Inr b | _ \<Rightarrow> bufferFrom rt v)"

text \<open>\<open>BigInt(s)\<close>\<close>

definition bigIntOfString :: "runtime \<Rightarrow> string \<Rightarrow> exn + int" where
  "bigIntOfString rt s = (case parseDecimal s of Some i \<Rightarrow> Inr i | None \<Rightarrow> bigIntOther rt s)"

section \<open>Asset codec (payload-decoders.ts, assetIdToName)\<close>

text \<open>
  The \<open>while\<close> loop of the alphabetic branch. \<open>remaining\<close> is positive when the
  body runs, so \<open>remaining - 1\<close> is not negative and the truncating \<open>/\<close> and \<open>%\<close>
  of \<open>bigint\<close> agree with \<open>div\<close> and \<open>mod\<close>.
\<close>

function alphaLoop :: "int \<Rightarrow> string \<Rightarrow> string" where
  "alphaLoop remaining name =
     (if remaining > 0 then
        (let r = remaining - 1;
             digit = r mod 26
         in alphaLoop (r div 26) (char_of (65 + nat digit) # name))
      else name)"
  by pat_completeness auto
termination
  by (relation "measure (\<lambda>(remaining, name). nat remaining)") auto

declare alphaLoop.simps [simp del]

text \<open>The body of \<open>assetIdToName\<close> once \<open>id\<close> is a \<open>bigint\<close>.\<close>

definition assetName :: "int \<Rightarrow> string" where
  "assetName aid =
     (if aid = 0 then ''BTC''
      else if aid = 1 then ''XCP''
      else if aid \<ge> 26 ^ 12 + 1 then CHR ''A'' # decimal aid
      else if aid \<ge> 26 ^ 3 then alphaLoop aid ''''
      else CHR ''A'' # decimal aid)"

text \<open>
  The argument is typed \<open>string | bigint\<close>; the CBOR decoders pass \<open>decoded[0]?.toString()\<close>,
  which can be \<open>undefined\<close>. Then no comparison holds and \<open>id.toString()\<close> throws a
  \<open>TypeError\<close>.
\<close>

datatype assetArg = AssetString string | AssetBigInt int | AssetUndefined

definition assetIdToName :: "runtime \<Rightarrow> assetArg \<Rightarrow> exn + string" where
  "assetIdToName rt a =
     (case a of
        AssetString s \<Rightarrow> bindE (bigIntOfString rt s) (\<lambda>aid. Inr (assetName aid))
      | AssetBigInt aid \<Rightarrow> Inr (assetName aid)
      | AssetUndefined \<Rightarrow> Inl (Error ''Cannot read properties of undefined (reading toString)''))"

definition assetArgOf :: "string option \<Rightarrow> assetArg" where
  "assetArgOf s = (case s of None \<Rightarrow> AssetUndefined | Some t \<Rightarrow> AssetString t)"

section \<open>Address codec (payload-decoders.ts, shortAddressBytesToAddress)\<close>

text \<open>\<open>payment.address || fallback\<close>\<close>

definition addressOr :: "string option \<Rightarrow> string \<Rightarrow> string" where
  "addressOr a fallback = (case a of None \<Rightarrow> fallback | Some s \<Rightarrow> if s = [] then fallback else s)"

text \<open>The last part of the \<open>try\<close> block: the network's own version bytes.\<close>

definition legacyBase58 :: "runtime \<Rightarrow> byte \<Rightarrow> buffer \<Rightarrow> network \<Rightarrow> string \<Rightarrow> exn + string" where
  "legacyBase58 rt firstByte data net fallback =
     (if unat firstByte = pubKeyHash net then
        bindE (p2pkh rt data net) (\<lambda>a. Inr (addressOr a fallback))
      else if unat firstByte = scriptHash net then
        bindE (p2sh rt data net) (\<lambda>a. Inr (addressOr a fallback))
      else Inr fallback)"

text \<open>The \<open>try\<close> block.\<close>

definition shortAddressTry :: "runtime \<Rightarrow> string \<Rightarrow> network \<Rightarrow> exn + string" where
  "shortAddressTry rt shortAddressHex net =
     (let buffer = fromHex shortAddressHex;
          fallback = ''0x'' @ shortAddressHex
      in if length buffer < 2 then
           Inl (Error (''Invalid short address length: '' @ decimalNat (length buffer)))
         else
           (let firstByte = hd buffer;
                data = tl buffer
            in if firstByte = 0x01 then
                 bindE (p2pkh rt data net) (\<lambda>a. Inr (addressOr a fallback))
               else if firstByte = 0x02 then
                 bindE (p2sh rt data net) (\<lambda>a. Inr (addressOr a fallback))
               else if firstByte = 0x03 then
                 (if length data \<ge> 2 then
                    (let witnessVersion = hd data;
                         witnessProgram = tl data
                     in if witnessVersion = 0 \<and> length witnessProgram = 20 then
                          bindE (p2wpkh rt witnessProgram net) (\<lambda>a. Inr (addressOr a fallback))
                        else if witnessVersion = 0 \<and> length witnessProgram = 32 then
                          bindE (p2wsh rt witnessProgram net) (\<lambda>a. Inr (addressOr a fallback))
                        else if witnessVersion = 1 \<and> length witnessProgram = 32 then
                          bindE (p2tr rt witnessProgram net) (\<lambda>a. Inr (addressOr a fallback))
                        else Inr fallback)
                  else Inr fallback)
               else if firstByte \<ge> 0x80 \<and> firstByte \<le> 0x8f then
                 (let witnessVersion = firstByte - 0x80
                  in if witnessVersion = 0 \<and> length data = 20 then
                       bindE (p2wpkh rt data net) (\<lambda>a. Inr (addressOr a fallback))
                     else if witnessVersion = 0 \<and> length data = 32 then
                       bindE (p2wsh rt data net) (\<lambda>a. Inr (addressOr a fallback))
                     else if witnessVersion = 1 \<and> length data = 32 then
                       bindE (p2tr rt data net) (\<lambda>a. Inr (addressOr a fallback))
                     else legacyBase58 rt firstByte data net fallback)
               else legacyBase58 rt firstByte data net fallback))"

definition shortAddressBytesToAddress :: "runtime \<Rightarrow> string \<Rightarrow> network \<Rightarrow> string" where
  "shortAddressBytesToAddress rt shortAddressHex net =
     (case shortAddressTry rt shortAddressHex net of
        Inl e \<Rightarrow> ''0x'' @ shortAddressHex
      | Inr a \<Rightarrow> a)"

section \<open>Text or hex (payload-decoders.ts, decodeTextOrHex)\<close>

text \<open>
  The callers pass \<open>decoded[i] || ''\<close>, any truthy value or the empty string; a value
  that is no string has no \<open>toLowerCase\<close>, a \<open>TypeError\<close> outside the inner \<open>try\<close>.
\<close>

definition decodeTextOrHex :: "runtime \<Rightarrow> buffer \<Rightarrow> jsval \<Rightarrow> exn + string" where
  "decodeTextOrHex rt buffer mimeType =
     (case (if truthy mimeType then mimeType else JString '''') of
        JString m \<Rightarrow>
          (let mimeTypeLower = lowerTrim rt m;
               isTextType = (mimeTypeLower = '''' \<or> take 4 mimeTypeLower = ''text'')
           in if isTextType then
                (let decoded = utf8Decode rt buffer
                 in if utf8Encode rt decoded = buffer then Inr decoded else Inr (toHex buffer))
              else Inr (toHex buffer))
      | _ \<Rightarrow> Inl (Error ''toLowerCase is not a function''))"

section \<open>Message framing (payload-decoders.ts, readMessageTypeId)\<close>

definition readMessageTypeId :: "buffer \<Rightarrow> exn + (int \<times> buffer)" where
  "readMessageTypeId message =
     (if length message = 0 then Inl (Error ''Empty message'')
      else
        (let firstByte = hd message
         in if firstByte > 0 then Inr (uint firstByte, drop 1 message)
            else if length message < 5 then Inl (Error ''Message too short for long ID'')
            else bindE (readUIntBE 4 message 1) (\<lambda>n. Inr (int n, drop 5 message))))"

section \<open>Payloads (types.ts)\<close>

text \<open>
  One constructor per payload interface, the fields in the order of the interface.
  A field that the decoder fills with \<open>v?.toString()\<close> is a \<open>string option\<close>
  (\<open>None\<close> is \<open>undefined\<close>); a field copied from the CBOR array as it is, is a \<open>jsval\<close>;
  an optional field (\<open>tag?\<close>, \<open>error?\<close>) or one that can be \<open>null\<close> is an option.
\<close>

datatype payload =
    EnhancedSend string "string option" string string
      \<comment> \<open>asset, quantity, address, memo\<close>
  | Sweep string jsval string
      \<comment> \<open>address, flags, memo\<close>
  | Issuance string "string option" jsval jsval jsval jsval "string option"
      \<comment> \<open>asset, quantity, divisible, lock, reset, mime_type, description\<close>
  | IssuanceSubasset string "string option" jsval jsval jsval jsval string jsval "string option"
      \<comment> \<open>asset, quantity, divisible, lock, reset, compacted_subasset_length,
          compacted_subasset_longname, mime_type, description\<close>
  | Broadcast jsval jsval jsval jsval string
      \<comment> \<open>timestamp, value, fee_fraction_int, mime_type, text\<close>
  | Fairminter string string "string option" "string option" "string option" "string option"
      "string option" "string option" jsval jsval "string option" jsval jsval jsval jsval jsval
      jsval jsval string
      \<comment> \<open>asset, asset_parent, price, quantity_by_price, max_mint_per_tx,
          max_mint_per_address, hard_cap, premint_quantity, start_block, end_block, soft_cap,
          soft_cap_deadline_block, minted_asset_commission_int, burn_payment,
          lock_description, lock_quantity, divisible, mime_type, description\<close>
  | Fairmint string "string option"
      \<comment> \<open>asset, quantity\<close>
  | Attach string string string
      \<comment> \<open>asset, quantity, destination_vout\<close>
  | Detach string
      \<comment> \<open>destination\<close>
  | Order string string string string nat string
      \<comment> \<open>give_asset, give_quantity, get_asset, get_quantity, expiration, fee_required\<close>
  | BtcPay string string
      \<comment> \<open>tx0_hash, tx1_hash\<close>
  | Dispenser string string string string nat "string option" "string option"
      \<comment> \<open>asset, give_quantity, escrow_quantity, satoshirate, status, action_address,
          oracle_address\<close>
  | Dispense string
      \<comment> \<open>data\<close>
  | Dividend string string string
      \<comment> \<open>quantity_per_unit, asset, dividend_asset\<close>
  | Cancel string
      \<comment> \<open>offer_hash\<close>
  | Destroy string string "string option"
      \<comment> \<open>asset, quantity, tag\<close>
  | TaprootCommit string
      \<comment> \<open>data\<close>
  | Unknown string "string option"
      \<comment> \<open>raw, error\<close>

section \<open>Payload decoders (payload-decoders.ts)\<close>

text \<open>\<open>v ? hex of (Buffer.isBuffer(v) ? v : Buffer.from(v)) : ''\<close>\<close>

definition optHex :: "runtime \<Rightarrow> jsval \<Rightarrow> exn + string" where
  "optHex rt v = (if truthy v then bindE (bufferOf rt v) (\<lambda>b. Inr (toHex b)) else Inr '''')"

text \<open>\<open>v || ''\<close>\<close>

definition orEmpty :: "jsval \<Rightarrow> jsval" where
  "orEmpty v = (if truthy v then v else JString '''')"

text \<open>
  \<open>if (v) { description = decodeTextOrHex(Buffer.isBuffer(v) ? v : Buffer.from(v), mimeType) }\<close>;
  \<open>None\<close> when the branch is not taken.
\<close>

definition optText :: "runtime \<Rightarrow> jsval \<Rightarrow> jsval \<Rightarrow> exn + string option" where
  "optText rt v mimeType =
     (if truthy v then
        bindE (bufferOf rt v) (\<lambda>b. bindE (decodeTextOrHex rt b mimeType) (\<lambda>t. Inr (Some t)))
      else Inr None)"

definition decodeEnhancedSend :: "runtime \<Rightarrow> buffer \<Rightarrow> network \<Rightarrow> exn + payload" where
  "decodeEnhancedSend rt payload net =
     bindE (cborDecode rt payload) (\<lambda>decoded.
       case decoded of
         JArray xs \<Rightarrow>
           if length xs < 3 then Inl (Error ''Invalid enhanced send payload'')
           else
             (let assetId = optToString rt (element xs 0)
              in bindE (bufferOf rt (element xs 2)) (\<lambda>sab.
                 let shortAddressBytes = toHex sab
                 in bindE (assetIdToName rt (assetArgOf assetId)) (\<lambda>asset.
                    let quantity = optToString rt (element xs 1);
                        address = shortAddressBytesToAddress rt shortAddressBytes net
                    in bindE (optHex rt (element xs 3)) (\<lambda>memo.
                       Inr (EnhancedSend asset quantity address memo)))))
       | _ \<Rightarrow> Inl (Error ''Invalid enhanced send payload''))"

definition decodeSweep :: "runtime \<Rightarrow> buffer \<Rightarrow> network \<Rightarrow> exn + payload" where
  "decodeSweep rt payload net =
     bindE (cborDecode rt payload) (\<lambda>decoded.
       case decoded of
         JArray xs \<Rightarrow>
           if length xs < 2 then Inl (Error ''Invalid sweep payload'')
           else
             bindE (bufferOf rt (element xs 0)) (\<lambda>sab.
               let shortAddressBytes = toHex sab;
                   address = shortAddressBytesToAddress rt shortAddressBytes net
               in bindE (optHex rt (element xs 2)) (\<lambda>memo.
                  Inr (Sweep address (element xs 1) memo)))
       | _ \<Rightarrow> Inl (Error ''Invalid sweep payload''))"

definition decodeIssuance :: "runtime \<Rightarrow> buffer \<Rightarrow> exn + payload" where
  "decodeIssuance rt payload =
     bindE (cborDecode rt payload) (\<lambda>decoded.
       case decoded of
         JArray xs \<Rightarrow>
           if length xs < 5 then Inl (Error ''Invalid issuance payload'')
           else
             (let assetId = optToString rt (element xs 0);
                  mimeType = orEmpty (element xs 5)
              in bindE (optText rt (element xs 6) mimeType) (\<lambda>description.
                 bindE (assetIdToName rt (assetArgOf assetId)) (\<lambda>asset.
                   Inr (Issuance asset (optToString rt (element xs 1)) (element xs 2)
                          (element xs 3) (element xs 4) mimeType description))))
       | _ \<Rightarrow> Inl (Error ''Invalid issuance payload''))"

definition decodeIssuanceSubasset :: "runtime \<Rightarrow> buffer \<Rightarrow> exn + payload" where
  "decodeIssuanceSubasset rt payload =
     bindE (cborDecode rt payload) (\<lambda>decoded.
       case decoded of
         JArray xs \<Rightarrow>
           if length xs < 7 then Inl (Error ''Invalid issuance subasset payload'')
           else
             (let assetId = optToString rt (element xs 0);
                  mimeType = orEmpty (element xs 7)
              in bindE (optText rt (element xs 8) mimeType) (\<lambda>description.
                 bindE (assetIdToName rt (assetArgOf assetId)) (\<lambda>asset.
                 bindE (bufferOf rt (element xs 6)) (\<lambda>longname.
                   Inr (IssuanceSubasset asset (optToString rt (element xs 1)) (element xs 2)
                          (element xs 3) (element xs 4) (element xs 5) (toHex longname)
                          mimeType description)))))
       | _ \<Rightarrow> Inl (Error ''Invalid issuance subasset payload''))"

definition decodeBroadcast :: "runtime \<Rightarrow> buffer \<Rightarrow> exn + payload" where
  "decodeBroadcast rt payload =
     bindE (cborDecode rt payload) (\<lambda>decoded.
       case decoded of
         JArray xs \<Rightarrow>
           if length xs < 4 then Inl (Error ''Invalid broadcast payload'')
           else
             (let mimeType = orEmpty (element xs 3)
              in bindE (optText rt (element xs 4) mimeType) (\<lambda>t.
                 let text = (case t of None \<Rightarrow> '''' | Some s \<Rightarrow> s)
                 in Inr (Broadcast (element xs 0) (element xs 1) (element xs 2) mimeType text)))
       | _ \<Rightarrow> Inl (Error ''Invalid broadcast payload''))"

definition decodeFairminter :: "runtime \<Rightarrow> buffer \<Rightarrow> exn + payload" where
  "decodeFairminter rt payload =
     bindE (cborDecode rt payload) (\<lambda>decoded.
       case decoded of
         JArray xs \<Rightarrow>
           if length xs < 17 then Inl (Error ''Invalid fairminter payload'')
           else
             (let assetId = optToString rt (element xs 0);
                  assetParentId = optToString rt (element xs 1);
                  mimeType = orEmpty (element xs 17)
              in bindE (optText rt (element xs 18) mimeType) (\<lambda>d.
                 let description = (case d of None \<Rightarrow> '''' | Some s \<Rightarrow> s)
                 in bindE (assetIdToName rt (assetArgOf assetId)) (\<lambda>asset.
                    bindE (assetIdToName rt (assetArgOf assetParentId)) (\<lambda>asset_parent.
                      Inr (Fairminter asset asset_parent
                             (optToString rt (element xs 2)) (optToString rt (element xs 3))
                             (optToString rt (element xs 4)) (optToString rt (element xs 5))
                             (optToString rt (element xs 6)) (optToString rt (element xs 7))
                             (element xs 8) (element xs 9)
                             (optToString rt (element xs 10))
                             (element xs 11) (element xs 12) (element xs 13) (element xs 14)
                             (element xs 15) (element xs 16) mimeType description)))))
       | _ \<Rightarrow> Inl (Error ''Invalid fairminter payload''))"

definition decodeFairmint :: "runtime \<Rightarrow> buffer \<Rightarrow> exn + payload" where
  "decodeFairmint rt payload =
     bindE (cborDecode rt payload) (\<lambda>decoded.
       case decoded of
         JArray xs \<Rightarrow>
           if length xs < 2 then Inl (Error ''Invalid fairmint payload'')
           else
             (let assetId = optToString rt (element xs 0)
              in bindE (assetIdToName rt (assetArgOf assetId)) (\<lambda>asset.
                   Inr (Fairmint asset (optToString rt (element xs 1)))))
       | _ \<Rightarrow> Inl (Error ''Invalid fairmint payload''))"

text \<open>\<open>raw.split('|')\<close>: always at least one part.\<close>

fun splitOn :: "char \<Rightarrow> string \<Rightarrow> string list" where
  "splitOn sep [] = [[]]"
| "splitOn sep (c # cs) =
     (if c = sep then [] # splitOn sep cs
      else (case splitOn sep cs of
              [] \<Rightarrow> [[c]]
            | p # ps \<Rightarrow> (c # p) # ps))"

text \<open>\<open>parts[i] || ''\<close>\<close>

definition partOr :: "string list \<Rightarrow> nat \<Rightarrow> string" where
  "partOr parts i = (if i < length parts then parts ! i else '''')"

definition decodeAttach :: "runtime \<Rightarrow> buffer \<Rightarrow> exn + payload" where
  "decodeAttach rt payload =
     (let raw = utf8Decode rt payload;
          parts = splitOn (CHR ''|'') raw
      in if length parts < 2 then Inl (Error ''Invalid attach payload'')
         else Inr (Attach (partOr parts 0) (partOr parts 1) (partOr parts 2)))"

definition decodeDetach :: "runtime \<Rightarrow> buffer \<Rightarrow> exn + payload" where
  "decodeDetach rt payload =
     (if length payload = 1 \<and> hd payload = 0x30 then Inr (Detach ''self'')
      else Inr (Detach (utf8Decode rt payload)))"

definition decodeOrder :: "runtime \<Rightarrow> buffer \<Rightarrow> exn + payload" where
  "decodeOrder rt payload =
     (if length payload < 34 then Inl (Error ''Invalid order payload'')
      else
        bindE (readUIntBE 8 payload 0) (\<lambda>give.
        bindE (readUIntBE 8 payload 16) (\<lambda>get.
          let giveId = decimal (int give);
              getId = decimal (int get)
          in bindE (assetIdToName rt (AssetString giveId)) (\<lambda>give_asset.
             bindE (readBigInt64BE payload 8) (\<lambda>give_quantity.
             bindE (assetIdToName rt (AssetString getId)) (\<lambda>get_asset.
             bindE (readBigInt64BE payload 24) (\<lambda>get_quantity.
             bindE (readUIntBE 2 payload 32) (\<lambda>expiration.
             bindE (if length payload \<ge> 42
                    then bindE (readBigInt64BE payload 34) (\<lambda>f. Inr (decimal f))
                    else Inr ''0'') (\<lambda>fee_required.
               Inr (Order give_asset (decimal give_quantity) get_asset (decimal get_quantity)
                      expiration fee_required))))))))))"

definition decodeBtcPay :: "buffer \<Rightarrow> exn + payload" where
  "decodeBtcPay payload =
     (if length payload < 64 then Inl (Error ''Invalid btc_pay payload'')
      else Inr (BtcPay (toHex (subarray payload 0 32)) (toHex (subarray payload 32 64))))"

definition decodeDispenser :: "runtime \<Rightarrow> buffer \<Rightarrow> network \<Rightarrow> exn + payload" where
  "decodeDispenser rt payload net =
     (if length payload < 33 then Inl (Error ''Invalid dispenser payload'')
      else
        bindE (readUIntBE 8 payload 0) (\<lambda>aid.
          let assetId = decimal (int aid)
          in bindE (assetIdToName rt (AssetString assetId)) (\<lambda>asset.
             bindE (readBigInt64BE payload 8) (\<lambda>give_quantity.
             bindE (readBigInt64BE payload 16) (\<lambda>escrow_quantity.
             bindE (readBigInt64BE payload 24) (\<lambda>satoshirate.
             bindE (readUIntBE 1 payload 32) (\<lambda>status.
               let action_address =
                     (if length payload \<ge> 54
                      then Some (shortAddressBytesToAddress rt (toHex (subarray payload 33 54)) net)
                      else None);
                   oracle_address =
                     (if length payload \<ge> 75
                      then Some (shortAddressBytesToAddress rt (toHex (subarray payload 54 75)) net)
                      else None)
               in Inr (Dispenser asset (decimal give_quantity) (decimal escrow_quantity)
                         (decimal satoshirate) status action_address oracle_address))))))))"

definition decodeDispense :: "buffer \<Rightarrow> exn + payload" where
  "decodeDispense payload =
     (if length payload \<noteq> 1 \<or> hd payload \<noteq> 0x00
      then Inl (Error ''Invalid dispense payload: expected 0x00'')
      else Inr (Dispense ''0x00''))"

definition decodeDividend :: "runtime \<Rightarrow> buffer \<Rightarrow> exn + payload" where
  "decodeDividend rt payload =
     (if length payload < 16 then Inl (Error ''Invalid dividend payload'')
      else
        bindE (readUIntBE 8 payload 8) (\<lambda>aid.
          let assetId = decimal (int aid)
          in bindE (readBigInt64BE payload 0) (\<lambda>quantity_per_unit.
             bindE (assetIdToName rt (AssetString assetId)) (\<lambda>asset.
               if length payload \<ge> 24 then
                 bindE (readUIntBE 8 payload 16) (\<lambda>did.
                   let dividendAssetId = decimal (int did)
                   in bindE (assetIdToName rt (AssetString dividendAssetId)) (\<lambda>dividend_asset.
                        Inr (Dividend (decimal quantity_per_unit) asset dividend_asset)))
               else Inr (Dividend (decimal quantity_per_unit) asset ''XCP'')))))"

definition decodeCancel :: "buffer \<Rightarrow> exn + payload" where
  "decodeCancel payload =
     (if length payload < 32 then Inl (Error ''Invalid cancel payload'')
      else Inr (Cancel (toHex (subarray payload 0 32))))"

definition decodeDestroy :: "runtime \<Rightarrow> buffer \<Rightarrow> exn + payload" where
  "decodeDestroy rt payload =
     (if length payload < 16 then Inl (Error ''Invalid destroy payload'')
      else
        bindE (readUIntBE 8 payload 0) (\<lambda>aid.
          let assetId = decimal (int aid)
          in bindE (assetIdToName rt (AssetString assetId)) (\<lambda>asset.
             bindE (readBigInt64BE payload 8) (\<lambda>quantity.
               let tag =
                     (if length payload > 16
                      then Some (toHex (subarray payload 16 (min (length payload) 50)))
                      else None)
               in Inr (Destroy asset (decimal quantity) tag)))))"

section \<open>Dispatch (payload-decoders.ts, decodePayload)\<close>

text \<open>The \<open>try\<close> block: the \<open>switch\<close> on the message-type id.\<close>

definition decodePayloadTry :: "runtime \<Rightarrow> int \<Rightarrow> buffer \<Rightarrow> network \<Rightarrow> exn + payload" where
  "decodePayloadTry rt messageId payload net =
     (if messageId = 2 then decodeEnhancedSend rt payload net
      else if messageId = 4 then decodeSweep rt payload net
      else if messageId = 10 then decodeOrder rt payload
      else if messageId = 11 then decodeBtcPay payload
      else if messageId = 12 then decodeDispenser rt payload net
      else if messageId = 13 then decodeDispense payload
      else if messageId = 20 \<or> messageId = 22 then decodeIssuance rt payload
      else if messageId = 21 \<or> messageId = 23 then decodeIssuanceSubasset rt payload
      else if messageId = 30 then decodeBroadcast rt payload
      else if messageId = 50 then decodeDividend rt payload
      else if messageId = 70 then decodeCancel payload
      else if messageId = 90 then decodeFairminter rt payload
      else if messageId = 91 then decodeFairmint rt payload
      else if messageId = 101 then decodeAttach rt payload
      else if messageId = 102 then decodeDetach rt payload
      else if messageId = 110 then decodeDestroy rt payload
      else Inr (Unknown (toHex payload) None))"

text \<open>\<open>error instanceof Error ? error.message : 'Unknown error'\<close>\<close>

definition errorText :: "exn \<Rightarrow> string" where
  "errorText e = (case e of Error m \<Rightarrow> m | NonError \<Rightarrow> ''Unknown error'')"

definition decodePayload :: "runtime \<Rightarrow> int \<Rightarrow> buffer \<Rightarrow> network \<Rightarrow> payload" where
  "decodePayload rt messageId payload net =
     (case decodePayloadTry rt messageId payload net of
        Inr p \<Rightarrow> p
      | Inl e \<Rightarrow> Unknown (toHex payload) (Some (errorText e)))"

section \<open>Constants (constants.ts)\<close>

text \<open>\<open>PREFIX_BYTES\<close>: the text \<open>CNTRPRTY\<close> as bytes.\<close>

definition PREFIX_BYTES :: buffer where
  "PREFIX_BYTES = [0x43, 0x4E, 0x54, 0x52, 0x50, 0x52, 0x54, 0x59]"

definition MESSAGE_TYPES :: "int \<Rightarrow> string option" where
  "MESSAGE_TYPES =
     map_of
       [(2, ''enhanced_send''), (3, ''mpma_send''), (4, ''sweep''), (10, ''order''),
        (11, ''btc_pay''), (12, ''dispenser''), (13, ''dispense''), (20, ''issuance''),
        (21, ''issuance_subasset''), (22, ''issuance''), (23, ''issuance_subasset''),
        (30, ''broadcast''), (50, ''dividend''), (70, ''cancel''), (90, ''fairminter''),
        (91, ''fairmint''), (101, ''attach''), (102, ''detach''), (110, ''destroy'')]"

record ParsedTransaction =
  message_name :: string
  message_id :: int
  params :: payload

section \<open>RC4 (op-return-parser.ts, rc4Decrypt)\<close>

text \<open>
  \<open>S\<close> is the 256-entry \<open>Uint8Array\<close>; the indices \<open>i\<close> and \<open>j\<close> are kept
  below 256 by \<open>& 0xFF\<close>, so they are bytes whose addition wraps.
\<close>

definition swap :: "byte list \<Rightarrow> nat \<Rightarrow> nat \<Rightarrow> byte list" where
  "swap S i j = (let temp = S ! i in (S[i := S ! j])[j := temp])"

text \<open>
  \<open>key[i % key.length]\<close>: for the empty key \<open>i % 0\<close> is \<open>NaN\<close> and the read is
  \<open>undefined\<close>.
\<close>

definition keyByte :: "buffer \<Rightarrow> nat \<Rightarrow> byte option" where
  "keyByte key i = (if key = [] then None else Some (key ! (i mod length key)))"

text \<open>
  One round of the key-scheduling loop. With an \<open>undefined\<close> key byte the sum is
  \<open>NaN\<close> and \<open>NaN & 0xFF\<close> is 0.
\<close>

definition ksaStep :: "buffer \<Rightarrow> byte list \<times> byte \<Rightarrow> nat \<Rightarrow> byte list \<times> byte" where
  "ksaStep key Sj i =
     (let S = fst Sj; j = snd Sj;
          j' = (case keyByte key i of None \<Rightarrow> 0 | Some k \<Rightarrow> j + S ! i + k)
      in (swap S i (unat j'), j'))"

definition ksa :: "buffer \<Rightarrow> byte list" where
  "ksa key = fst (foldl (ksaStep key) (map word_of_nat [0..<256], 0) [0..<256])"

text \<open>The generation loop, one output byte per input byte.\<close>

fun prga :: "byte list \<Rightarrow> byte \<Rightarrow> byte \<Rightarrow> buffer \<Rightarrow> buffer" where
  "prga S i j [] = []"
| "prga S i j (d # ds) =
     (let i' = i + 1;
          j' = j + S ! unat i';
          S' = swap S (unat i') (unat j')
      in (d XOR S' ! unat (S' ! unat i' + S' ! unat j')) # prga S' i' j' ds)"

definition rc4Decrypt :: "buffer \<Rightarrow> buffer \<Rightarrow> buffer" where
  "rc4Decrypt key data = prga (ksa key) 0 0 data"

section \<open>Framing and decoding a message (the common tail of both parsers)\<close>

text \<open>
  Both \<open>parse_op_return\<close> and \<open>parse_reveal_tx\<close> end with the same statements: read the
  type id, look its name up (\<open>MESSAGE_TYPES[messageId] || 'unknown'\<close>; no name in the table
  is empty), decode the payload, build the record.
\<close>

definition decodeMessage :: "runtime \<Rightarrow> buffer \<Rightarrow> network \<Rightarrow> exn + ParsedTransaction" where
  "decodeMessage rt message net =
     bindE (readMessageTypeId message) (\<lambda>(messageId, payload).
       let messageName = (case MESSAGE_TYPES messageId of None \<Rightarrow> ''unknown'' | Some n \<Rightarrow> n);
           ps = decodePayload rt messageId payload net
       in Inr \<lparr>message_name = messageName, message_id = messageId, params = ps\<rparr>)"

section \<open>OP_RETURN carrier (op-return-parser.ts, parse_op_return)\<close>

definition dataStart :: "buffer \<Rightarrow> nat" where
  "dataStart scriptBuffer =
     (if length scriptBuffer > 1 then
        (let pushOpcode = scriptBuffer ! 1
         in if pushOpcode < 76 then 2
            else if pushOpcode = 0x4c then 3
            else if pushOpcode = 0x4d then 4
            else if pushOpcode = 0x4e then 6
            else 1)
      else 1)"

definition opReturnData :: "buffer \<Rightarrow> buffer" where
  "opReturnData scriptBuffer = drop (dataStart scriptBuffer) scriptBuffer"

text \<open>The \<open>try\<close> block; \<open>None\<close> is \<open>null\<close>.\<close>

definition parseOpReturnTry ::
  "runtime \<Rightarrow> buffer \<Rightarrow> string \<Rightarrow> network \<Rightarrow> exn + ParsedTransaction option" where
  "parseOpReturnTry rt scriptBuffer firstInputTxid net =
     (if length scriptBuffer = 0 \<or> hd scriptBuffer \<noteq> 0x6a then Inr None
      else
        (let candidate = opReturnData scriptBuffer;
             key = fromHex firstInputTxid
         in if candidate = PREFIX_BYTES then
              Inr (Some \<lparr>message_name = ''taproot_commit'', message_id = 0,
                         params = TaprootCommit ''CNTRPRTY''\<rparr>)
            else
              (let decrypted = rc4Decrypt key candidate
               in if subarray decrypted 0 8 \<noteq> PREFIX_BYTES then Inr None
                  else
                    (let message = drop 8 decrypted
                     in if length message = 0 then Inr None
                        else bindE (decodeMessage rt message net) (\<lambda>r. Inr (Some r))))))"

definition parse_op_return ::
  "runtime \<Rightarrow> buffer \<Rightarrow> string \<Rightarrow> network \<Rightarrow> ParsedTransaction option" where
  "parse_op_return rt scriptBuffer firstInputTxid net =
     (case parseOpReturnTry rt scriptBuffer firstInputTxid net of
        Inl e \<Rightarrow> None
      | Inr r \<Rightarrow> r)"

section \<open>Taproot envelope carrier (reveal-parser.ts)\<close>

subsection \<open>extractWitnessScript\<close>

text \<open>\<open>tx.hasWitnesses()\<close> of the library: some input has a non-empty witness stack.\<close>

definition hasWitnesses :: "transaction \<Rightarrow> bool" where
  "hasWitnesses tx = list_ex (\<lambda>input. witness input \<noteq> []) (ins tx)"

text \<open>The \<open>for\<close> loop over the inputs.\<close>

fun findEnvelopeScript :: "txInput list \<Rightarrow> buffer option" where
  "findEnvelopeScript [] = None"
| "findEnvelopeScript (input # rest) =
     (if length (witness input) < 2 then findEnvelopeScript rest
      else
        (let script = witness input ! (length (witness input) - 2)
         in if length script > 2 \<and> script ! 0 = 0x00 \<and> script ! 1 = 0x63 then Some script
            else findEnvelopeScript rest))"

definition extractWitnessScript :: "runtime \<Rightarrow> buffer \<Rightarrow> buffer option" where
  "extractWitnessScript rt txBuffer =
     (case txFromBuffer rt txBuffer of
        Inl e \<Rightarrow> None
      | Inr tx \<Rightarrow> if \<not> hasWitnesses tx then None else findEnvelopeScript (ins tx))"

subsection \<open>extractGenericEnvelope\<close>

text \<open>
  The \<open>while\<close> loop, with the cursor \<open>offset\<close> and the chunks collected so far. A
  PUSHDATA1 opcode in the last position reads an \<open>undefined\<close> length: the chunk is empty,
  the cursor becomes \<open>NaN\<close> and the loop ends. \<open>readUInt16LE\<close> and \<open>readUInt32LE\<close>
  throw when the length bytes are cut off.
\<close>

function genericLoop :: "buffer \<Rightarrow> nat \<Rightarrow> buffer list \<Rightarrow> exn + buffer list" where
  "genericLoop script offset chunks =
     (if offset < length script then
        (let byte = script ! offset
         in if byte = 0x68 then Inr chunks
            else if byte > 0 \<and> byte \<le> 75 then
              genericLoop script (offset + 1 + unat byte)
                (chunks @ [subarray script (offset + 1) (offset + 1 + unat byte)])
            else if byte = 0x4c then
              (case byteAt script (offset + 1) of
                 None \<Rightarrow> Inr (chunks @ [[]])
               | Some chunkLen \<Rightarrow>
                   genericLoop script (offset + 2 + unat chunkLen)
                     (chunks @ [subarray script (offset + 2) (offset + 2 + unat chunkLen)]))
            else if byte = 0x4d then
              (case readUIntLE 2 script (offset + 1) of
                 Inl e \<Rightarrow> Inl e
               | Inr chunkLen \<Rightarrow>
                   genericLoop script (offset + 3 + chunkLen)
                     (chunks @ [subarray script (offset + 3) (offset + 3 + chunkLen)]))
            else if byte = 0x4e then
              (case readUIntLE 4 script (offset + 1) of
                 Inl e \<Rightarrow> Inl e
               | Inr chunkLen \<Rightarrow>
                   genericLoop script (offset + 5 + chunkLen)
                     (chunks @ [subarray script (offset + 5) (offset + 5 + chunkLen)]))
            else genericLoop script (offset + 1) chunks)
      else Inr chunks)"
  by pat_completeness auto
termination
  by (relation "measure (\<lambda>(script, offset, chunks). length script - offset)") auto

declare genericLoop.simps [simp del]

definition extractGenericEnvelope :: "buffer \<Rightarrow> nat \<Rightarrow> buffer option" where
  "extractGenericEnvelope script startOffset =
     (case genericLoop script startOffset [] of
        Inl e \<Rightarrow> None
      | Inr chunks \<Rightarrow> Some (concat chunks))"

subsection \<open>extractOrdXcpEnvelope\<close>

text \<open>The \<open>while\<close> loop that collects the CBOR chunks; nothing in it throws.\<close>

function ordXcpLoop :: "buffer \<Rightarrow> nat \<Rightarrow> buffer list \<Rightarrow> buffer list" where
  "ordXcpLoop script offset cborChunks =
     (if offset < length script then
        (let byte = script ! offset
         in if byte = 0x68 then cborChunks
            else if byte = 0x00 then cborChunks
            else if byte > 0 \<and> byte \<le> 75 then
              ordXcpLoop script (offset + 1 + unat byte)
                (cborChunks @ [subarray script (offset + 1) (offset + 1 + unat byte)])
            else if byte = 0x4c then
              (case byteAt script (offset + 1) of
                 None \<Rightarrow> cborChunks @ [[]]
               | Some chunkLen \<Rightarrow>
                   ordXcpLoop script (offset + 2 + unat chunkLen)
                     (cborChunks @ [subarray script (offset + 2) (offset + 2 + unat chunkLen)]))
            else ordXcpLoop script (offset + 1) cborChunks)
      else cborChunks)"
  by pat_completeness auto
termination
  by (relation "measure (\<lambda>(script, offset, chunks). length script - offset)") auto

declare ordXcpLoop.simps [simp del]

text \<open>
  The prefix built from \<open>decoded[0]\<close>. \<open>Buffer.from([n])\<close> is the single byte \<open>n\<close>;
  \<open>writeUInt32BE\<close> throws a \<open>RangeError\<close> outside \<open>0 .. 2^32 - 1\<close>.
\<close>

definition be32 :: "int \<Rightarrow> buffer" where
  "be32 n =
     [word_of_int (n div 2 ^ 24), word_of_int (n div 2 ^ 16), word_of_int (n div 2 ^ 8),
      word_of_int n]"

definition messageTypeIdPrefix :: "runtime \<Rightarrow> jsval \<Rightarrow> exn + buffer" where
  "messageTypeIdPrefix rt messageTypeId =
     (case messageTypeId of
        JInt n \<Rightarrow>
          if n > 0 \<and> n < 256 then Inr [word_of_int n]
          else if 0 \<le> n \<and> n \<le> 4294967295 then Inr (0 # be32 n)
          else Inl (Error ''The value of value is out of range'')
      | _ \<Rightarrow> idPrefixOther rt messageTypeId)"

text \<open>
  From the CBOR decoding to the end of the \<open>try\<close> block: the first element of the decoded
  array is the type id, the rest plus the MIME type is encoded again.
\<close>

definition reframe :: "runtime \<Rightarrow> buffer \<Rightarrow> buffer \<Rightarrow> exn + buffer option" where
  "reframe rt cborData mimeType =
     bindE (cborDecode rt cborData) (\<lambda>decoded.
       case decoded of
         JArray xs \<Rightarrow>
           if length xs = 0 then Inr None
           else
             (let messageTypeId = hd xs;
                  modifiedArray = tl xs @ [JString (utf8Decode rt mimeType)]
              in bindE (cborEncode rt (JArray modifiedArray)) (\<lambda>reencoded.
                 bindE (messageTypeIdPrefix rt messageTypeId) (\<lambda>messageTypeIdByte.
                   Inr (Some (messageTypeIdByte @ reencoded)))))
       | _ \<Rightarrow> Inr None)"

text \<open>
  The start of the \<open>try\<close> block: the optional 0x01 marker, the MIME type behind its length
  byte, the optional 0x05 marker. When the length byte lies beyond the script it is
  \<open>undefined\<close>: the MIME type is empty, the cursor becomes \<open>NaN\<close> and the loop does
  not run.
\<close>

definition extractOrdXcpTry :: "runtime \<Rightarrow> buffer \<Rightarrow> nat \<Rightarrow> exn + buffer option" where
  "extractOrdXcpTry rt script startOffset =
     (let offset1 = (if byteAt script startOffset = Some 0x01 then startOffset + 1 else startOffset)
      in case byteAt script offset1 of
           None \<Rightarrow> reframe rt (concat []) []
         | Some mimeTypeLen \<Rightarrow>
             (let offset2 = offset1 + 1;
                  mimeType = subarray script offset2 (offset2 + unat mimeTypeLen);
                  offset3 = offset2 + unat mimeTypeLen;
                  offset4 = (if byteAt script offset3 = Some 0x05 then offset3 + 1 else offset3);
                  cborChunks = ordXcpLoop script offset4 []
              in reframe rt (concat cborChunks) mimeType))"

definition extractOrdXcpEnvelope :: "runtime \<Rightarrow> buffer \<Rightarrow> nat \<Rightarrow> buffer option" where
  "extractOrdXcpEnvelope rt script startOffset =
     (case extractOrdXcpTry rt script startOffset of
        Inl e \<Rightarrow> None
      | Inr r \<Rightarrow> r)"

subsection \<open>extractFromEnvelope\<close>

text \<open>
  \<open>possibleOrd.toString('utf8') === 'ord'\<close> holds exactly when the three bytes are the
  ASCII codes of \<open>ord\<close>, and likewise for \<open>xcp\<close>.
\<close>

definition ordBytes :: buffer where
  "ordBytes = [0x6f, 0x72, 0x64]"

definition xcpBytes :: buffer where
  "xcpBytes = [0x78, 0x63, 0x70]"

definition extractFromEnvelope :: "runtime \<Rightarrow> buffer \<Rightarrow> buffer option" where
  "extractFromEnvelope rt script =
     (if length script < 4 \<or> script ! 0 \<noteq> 0x00 \<or> script ! 1 \<noteq> 0x63 then None
      else if 2 + 3 \<le> length script \<and> subarray script 2 (2 + 3) = ordBytes then
        (let offset = (if byteAt script 5 = Some 0x07 then 6 else 5)
         in if offset + 3 \<le> length script \<and> subarray script offset (offset + 3) = xcpBytes
            then extractOrdXcpEnvelope rt script (offset + 3)
            else extractGenericEnvelope script 2)
      else extractGenericEnvelope script 2)"

subsection \<open>parse_reveal_tx\<close>

definition parse_reveal_tx :: "runtime \<Rightarrow> string \<Rightarrow> network \<Rightarrow> ParsedTransaction option" where
  "parse_reveal_tx rt revealTxHex net =
     (let txBuffer = fromHex revealTxHex
      in case extractWitnessScript rt txBuffer of
           None \<Rightarrow> None
         | Some witnessScript \<Rightarrow>
             (case extractFromEnvelope rt witnessScript of
                None \<Rightarrow> None
              | Some message \<Rightarrow>
                  if length message = 0 then None
                  else (case decodeMessage rt message net of
                          Inl e \<Rightarrow> None
                        | Inr r \<Rightarrow> Some r)))"

section \<open>Reference notions used to state the properties\<close>

text \<open>
  Bijective base 26 over the letters A to Z (A is 1, Z is 26, no zero digit, most
  significant letter first), the numbering of spreadsheet columns.
\<close>

definition isUpperAZ :: "char \<Rightarrow> bool" where
  "isUpperAZ c = (65 \<le> (of_char c :: nat) \<and> (of_char c :: nat) \<le> 90)"

fun b26Value :: "string \<Rightarrow> nat" where
  "b26Value [] = 0"
| "b26Value (c # cs) = (of_char c - 64) * 26 ^ length cs + b26Value cs"

text \<open>
  The dispatch table as the specification lists it: for each known message-type id the
  decoder it selects, applied to the payload and the network.
\<close>

definition decoderTable :: "runtime \<Rightarrow> int \<Rightarrow> (buffer \<Rightarrow> network \<Rightarrow> exn + payload) option" where
  "decoderTable rt =
     map_of
       [(2, decodeEnhancedSend rt),
        (4, decodeSweep rt),
        (10, \<lambda>payload net. decodeOrder rt payload),
        (11, \<lambda>payload net. decodeBtcPay payload),
        (12, decodeDispenser rt),
        (13, \<lambda>payload net. decodeDispense payload),
        (20, \<lambda>payload net. decodeIssuance rt payload),
        (21, \<lambda>payload net. decodeIssuanceSubasset rt payload),
        (22, \<lambda>payload net. decodeIssuance rt payload),
        (23, \<lambda>payload net. decodeIssuanceSubasset rt payload),
        (30, \<lambda>payload net. decodeBroadcast rt payload),
        (50, \<lambda>payload net. decodeDividend rt payload),
        (70, \<lambda>payload net. decodeCancel payload),
        (90, \<lambda>payload net. decodeFairminter rt payload),
        (91, \<lambda>payload net. decodeFairmint rt payload),
        (101, \<lambda>payload net. decodeAttach rt payload),
        (102, \<lambda>payload net. decodeDetach rt payload),
        (110, \<lambda>payload net. decodeDestroy rt payload)]"

text \<open>The (witness version, program length) pairs that denote P2WPKH, P2WSH and P2TR.\<close>

definition validWitnessProgram :: "byte \<Rightarrow> nat \<Rightarrow> bool" where
  "validWitnessProgram version len =
     ((version = 0 \<and> len = 20) \<or> (version = 0 \<and> len = 32) \<or> (version = 1 \<and> len = 32))"

text \<open>
  The inputs for which the specification promises the literal \<open>0x\<close> passthrough: a buffer
  shorter than two bytes, an unrecognised tag, or a tag 0x03 or segwit marker whose witness
  version and program length do not fit.
\<close>

definition fallbackCase :: "network \<Rightarrow> buffer \<Rightarrow> bool" where
  "fallbackCase net buf =
     (length buf < 2
      \<or> (hd buf \<noteq> 0x01 \<and> hd buf \<noteq> 0x02 \<and> hd buf \<noteq> 0x03
          \<and> \<not> (0x80 \<le> hd buf \<and> hd buf \<le> 0x8f)
          \<and> unat (hd buf) \<noteq> pubKeyHash net \<and> unat (hd buf) \<noteq> scriptHash net)
      \<or> (hd buf = 0x03 \<and> \<not> validWitnessProgram (hd (tl buf)) (length buf - 2))
      \<or> (0x80 \<le> hd buf \<and> hd buf \<le> 0x8f
          \<and> \<not> validWitnessProgram (hd buf - 0x80) (length buf - 1)))"

text \<open>
  The same, except that a segwit marker with an unfit program must also differ from the
  network's own version bytes.
\<close>

definition fallbackCaseByDesign :: "network \<Rightarrow> buffer \<Rightarrow> bool" where
  "fallbackCaseByDesign net buf =
     (length buf < 2
      \<or> (hd buf \<noteq> 0x01 \<and> hd buf \<noteq> 0x02 \<and> hd buf \<noteq> 0x03
          \<and> \<not> (0x80 \<le> hd buf \<and> hd buf \<le> 0x8f)
          \<and> unat (hd buf) \<noteq> pubKeyHash net \<and> unat (hd buf) \<noteq> scriptHash net)
      \<or> (hd buf = 0x03 \<and> \<not> validWitnessProgram (hd (tl buf)) (length buf - 2))
      \<or> (0x80 \<le> hd buf \<and> hd buf \<le> 0x8f
          \<and> \<not> validWitnessProgram (hd buf - 0x80) (length buf - 1)
          \<and> unat (hd buf) \<noteq> pubKeyHash net \<and> unat (hd buf) \<noteq> scriptHash net))"

text \<open>
  The four encodings of a pushed chunk in Bitcoin script: the direct push (the length, 1 to
  75, as the opcode) and PUSHDATA1, PUSHDATA2, PUSHDATA4 (opcode 0x4c, 0x4d, 0x4e followed by
  the length in 1, 2, 4 little-endian bytes).
\<close>

datatype pushWidth = ShortPush | PushData1 | PushData2 | PushData4

definition le16 :: "nat \<Rightarrow> buffer" where
  "le16 n = [word_of_nat n, word_of_nat (n div 256)]"

definition le32 :: "nat \<Rightarrow> buffer" where
  "le32 n =
     [word_of_nat n, word_of_nat (n div 256), word_of_nat (n div 65536),
      word_of_nat (n div 16777216)]"

definition encodePush :: "pushWidth \<Rightarrow> buffer \<Rightarrow> buffer" where
  "encodePush w chunk =
     (case w of
        ShortPush \<Rightarrow> word_of_nat (length chunk) # chunk
      | PushData1 \<Rightarrow> 0x4c # word_of_nat (length chunk) # chunk
      | PushData2 \<Rightarrow> 0x4d # le16 (length chunk) @ chunk
      | PushData4 \<Rightarrow> 0x4e # le32 (length chunk) @ chunk)"

text \<open>The chunk lengths each encoding can express.\<close>

definition fitsPush :: "pushWidth \<Rightarrow> buffer \<Rightarrow> bool" where
  "fitsPush w chunk =
     (case w of
        ShortPush \<Rightarrow> 1 \<le> length chunk \<and> length chunk \<le> 75
      | PushData1 \<Rightarrow> length chunk \<le> 255
      | PushData2 \<Rightarrow> length chunk \<le> 65535
      | PushData4 \<Rightarrow> length chunk \<le> 4294967295)"

definition wellFormedPushes :: "(pushWidth \<times> buffer) list \<Rightarrow> bool" where
  "wellFormedPushes pushes = list_all (\<lambda>p. fitsPush (fst p) (snd p)) pushes"

definition encodePushes :: "(pushWidth \<times> buffer) list \<Rightarrow> buffer" where
  "encodePushes pushes = concat (map (\<lambda>p. encodePush (fst p) (snd p)) pushes)"

text \<open>The logical message of a list of pushes: the chunks, concatenated.\<close>

definition pushedData :: "(pushWidth \<times> buffer) list \<Rightarrow> buffer" where
  "pushedData pushes = concat (map snd pushes)"

text \<open>A generic envelope: \<open>OP_FALSE OP_IF\<close>, the pushes, \<open>OP_ENDIF\<close>.\<close>

definition genericEnvelope :: "(pushWidth \<times> buffer) list \<Rightarrow> buffer" where
  "genericEnvelope pushes = [0x00, 0x63] @ encodePushes pushes @ [0x68]"

text \<open>
  An ord/xcp envelope as the tests build it: the literal \<open>ord\<close>, 0x07, the literal
  \<open>xcp\<close>, 0x01, the MIME type behind its length byte, 0x05, the pushes of the CBOR
  metadata, \<open>OP_ENDIF\<close>.
\<close>

definition ordXcpEnvelope :: "buffer \<Rightarrow> (pushWidth \<times> buffer) list \<Rightarrow> buffer" where
  "ordXcpEnvelope mimeType pushes =
     [0x00, 0x63] @ ordBytes @ [0x07] @ xcpBytes @ [0x01]
       @ [word_of_nat (length mimeType)] @ mimeType @ [0x05]
       @ encodePushes pushes @ [0x68]"

definition shortOrPushData1 :: "(pushWidth \<times> buffer) list \<Rightarrow> bool" where
  "shortOrPushData1 pushes = list_all (\<lambda>p. fst p = ShortPush \<or> fst p = PushData1) pushes"

section \<open>A stand-in runtime for running the model on concrete inputs\<close>

text \<open>
  The theorems below hold for every runtime. To evaluate the model at a concrete input
  the library primitives need values; this stand-in supplies them on the inputs used:
  \<^item> CBOR: an array header \<open>0x80 + n\<close> (\<open>n < 24\<close>) followed by \<open>n\<close> one-byte unsigned
    integers below 24 decodes to that array of numbers, as in CBOR; every other input is
    reported as a decoding error. Encoding covers arrays of such integers and of short
    text strings (header \<open>0x60 + length\<close>), as in CBOR;
  \<^item> UTF-8: bytes and characters correspond one to one (the representation of strings used
    throughout);
  \<^item> payments: a hash of the expected length yields a non-empty address text (a label, not
    the Base58Check or Bech32 text of the library); any other length throws, as the
    library's type check does;
  \<^item> transactions: the buffer is read as a transaction with one input whose witness stack
    is a signature, the buffer itself as the script, and a control block;
  \<^item> the remaining coercions throw.
\<close>

definition exampleCborDecode :: "buffer \<Rightarrow> exn + jsval" where
  "exampleCborDecode bs =
     (case bs of
        [] \<Rightarrow> Inl (Error ''Unexpected end of CBOR data'')
      | h # items \<Rightarrow>
          if 0x80 \<le> h \<and> h \<le> 0x97 \<and> length items = unat h - 128 \<and> list_all (\<lambda>b. b \<le> 0x17) items
          then Inr (JArray (map (\<lambda>b. JInt (uint b)) items))
          else Inl (Error ''Data read, but end of buffer not reached''))"

definition exampleCborItem :: "jsval \<Rightarrow> buffer option" where
  "exampleCborItem v =
     (case v of
        JInt n \<Rightarrow> if 0 \<le> n \<and> n < 24 then Some [word_of_int n] else None
      | JString s \<Rightarrow>
          if length s < 24
          then Some (word_of_nat (96 + length s) # map (\<lambda>c. word_of_nat (of_char c)) s)
          else None
      | _ \<Rightarrow> None)"

definition exampleCborEncode :: "jsval \<Rightarrow> exn + buffer" where
  "exampleCborEncode v =
     (case v of
        JArray xs \<Rightarrow>
          (case those (map exampleCborItem xs) of
             Some items \<Rightarrow>
               if length xs < 24 then Inr (word_of_nat (128 + length xs) # concat items)
               else Inl (Error ''unsupported value'')
           | None \<Rightarrow> Inl (Error ''unsupported value''))
      | _ \<Rightarrow> Inl (Error ''unsupported value''))"

definition examplePayment :: "string \<Rightarrow> nat \<Rightarrow> buffer \<Rightarrow> network \<Rightarrow> exn + string option" where
  "examplePayment kind n hash net =
     (if length hash = n then Inr (Some (kind @ toHex hash))
      else Inl (Error ''Expected property hash of type Buffer''))"

definition exampleRuntime :: runtime where
  "exampleRuntime =
     \<lparr>cborDecode = exampleCborDecode,
      cborEncode = exampleCborEncode,
      utf8Decode = map (\<lambda>b. char_of (unat b)),
      utf8Encode = map (\<lambda>c. word_of_nat (of_char c)),
      bufferFrom = (\<lambda>v. Inl (Error ''The first argument must be of type string or Buffer'')),
      valueToString = (\<lambda>v. ''[object Object]''),
      bigIntOther = (\<lambda>s. Inl (Error ''Cannot convert to a BigInt'')),
      lowerTrim = (\<lambda>s. s),
      idPrefixOther = (\<lambda>v. Inl (Error ''The value argument must be of type number'')),
      p2pkh = examplePayment ''p2pkh:'' 20,
      p2sh = examplePayment ''p2sh:'' 20,
      p2wpkh = examplePayment ''p2wpkh:'' 20,
      p2wsh = examplePayment ''p2wsh:'' 32,
      p2tr = examplePayment ''p2tr:'' 32,
      txFromBuffer = (\<lambda>b. Inr \<lparr>ins = [\<lparr>witness = [replicate 64 0, b, replicate 33 0]\<rparr>]\<rparr>)\<rparr>"

text \<open>Bitcoin main net, and a network whose public-key-hash version byte is 0x8c (Dash test net).\<close>

definition bitcoinNetwork :: network where
  "bitcoinNetwork = \<lparr>pubKeyHash = 0x00, scriptHash = 0x05, bech32 = ''bc''\<rparr>"

definition dashTestnet :: network where
  "dashTestnet = \<lparr>pubKeyHash = 0x8c, scriptHash = 0x13, bech32 = ''tdash''\<rparr>"

section \<open>Basic facts\<close>

subsection \<open>Hexadecimal and decimal text\<close>

lemma hexVal_hexDigit: "n < 16 \<Longrightarrow> hexVal (hexDigit n) = Some n"
proof -
  assume "n < 16"
  then have "n \<in> {0,1,2,3,4,5,6,7,8,9,10,11,12,13,14,15}" by (simp; arith)
  then show ?thesis
    by (auto simp: hexVal_def hexDigit_def)
qed

lemma fromHex_byteHex: "fromHex (byteHex b @ cs) = b # fromHex cs"
proof -
  have "unat b < 2 ^ LENGTH(8)" by (rule unsigned_less)
  then have "unat b < 256" by simp
  then have d: "unat b div 16 < 16" by arith
  have m: "unat b mod 16 < 16" by simp
  have "word_of_nat (16 * (unat b div 16) + unat b mod 16) = b"
    by (simp add: mult_div_mod_eq)
  then show ?thesis
    by (simp add: byteHex_def hexVal_hexDigit [OF d] hexVal_hexDigit [OF m])
qed

lemma fromHex_toHex: "fromHex (toHex bs) = bs"
  by (induction bs) (simp_all add: toHex_def fromHex_byteHex)

lemma length_toHex: "length (toHex bs) = 2 * length bs"
  by (induction bs) (simp_all add: toHex_def byteHex_def)

lemma digitVal_digitChar: "n < 10 \<Longrightarrow> digitVal (digitChar n) = Some n"
proof -
  assume "n < 10"
  then have "n \<in> {0,1,2,3,4,5,6,7,8,9}" by (simp; arith)
  then show ?thesis
    by (auto simp: digitVal_def digitChar_def)
qed

lemma digitsValue_append:
  "digitsValue acc (xs @ ys) = (case digitsValue acc xs of None \<Rightarrow> None | Some v \<Rightarrow> digitsValue v ys)"
  by (induction xs arbitrary: acc) (simp_all split: option.splits)

lemma digitsValue_decimalNat: "digitsValue 0 (decimalNat n) = Some n"
proof (induction n rule: decimalNat.induct)
  case (1 n)
  show ?case
  proof (cases "n < 10")
    case True
    then show ?thesis by (simp add: decimalNat.simps [of n] digitVal_digitChar)
  next
    case False
    then have ih: "digitsValue 0 (decimalNat (n div 10)) = Some (n div 10)" using 1 by simp
    show ?thesis using False
      by (simp add: decimalNat.simps [of n] digitsValue_append ih digitVal_digitChar)
  qed
qed

lemma decimalNat_nonempty: "decimalNat n \<noteq> []"
  by (simp add: decimalNat.simps [of n])

lemma hd_decimalNat: "hd (decimalNat n) \<noteq> CHR ''-''"
proof (induction n rule: decimalNat.induct)
  case (1 n)
  show ?case
  proof (cases "n < 10")
    case True
    then have "n \<in> {0,1,2,3,4,5,6,7,8,9}" by (simp; arith)
    then show ?thesis by (auto simp: decimalNat.simps [of n] digitChar_def)
  next
    case False
    then show ?thesis using 1 by (simp add: decimalNat.simps [of n] decimalNat_nonempty)
  qed
qed

lemma parseDecimal_decimal: "parseDecimal (decimal i) = Some i"
proof (cases "i < 0")
  case True
  then show ?thesis
    by (simp add: parseDecimal_def decimal_def decimalNat_nonempty digitsValue_decimalNat)
next
  case False
  obtain c cs where e: "decimalNat (nat i) = c # cs"
    using decimalNat_nonempty [of "nat i"] by (cases "decimalNat (nat i)") auto
  have "c \<noteq> CHR ''-''" using hd_decimalNat [of "nat i"] e by simp
  moreover have "digitsValue 0 (c # cs) = Some (nat i)" using digitsValue_decimalNat [of "nat i"] e by simp
  ultimately show ?thesis using False e
    by (simp add: parseDecimal_def decimal_def del: digitsValue.simps)
qed

lemma bigIntOfString_decimal: "bigIntOfString rt (decimal i) = Inr i"
  by (simp add: bigIntOfString_def parseDecimal_decimal)

lemma assetIdToName_decimal: "assetIdToName rt (AssetString (decimal i)) = Inr (assetName i)"
  by (simp add: assetIdToName_def bigIntOfString_decimal bindE_def)

subsection \<open>RC4\<close>

lemma length_prga: "length (prga S i j ds) = length ds"
  by (induction ds arbitrary: S i j) (simp_all add: Let_def)

lemma xor_cancel_right: "(a XOR k) XOR k = (a :: byte)"
  by (simp add: xor.assoc)

lemma prga_twice: "prga S i j (prga S i j ds) = ds"
  by (induction ds arbitrary: S i j) (simp_all add: Let_def xor_cancel_right)

lemma length_rc4Decrypt: "length (rc4Decrypt key data) = length data"
  by (simp add: rc4Decrypt_def length_prga)

lemma rc4Decrypt_twice: "rc4Decrypt key (rc4Decrypt key data) = data"
  by (simp add: rc4Decrypt_def prga_twice)

subsection \<open>The alphabetic asset names\<close>

lemma of_char_letter: "d < 26 \<Longrightarrow> (of_char (char_of (65 + d)) :: nat) = 65 + d"
  by simp

lemma alphaLoop_stop: "\<not> remaining > 0 \<Longrightarrow> alphaLoop remaining name = name"
  by (simp add: alphaLoop.simps)

lemma alphaLoop_step:
  "remaining > 0 \<Longrightarrow>
     alphaLoop remaining name =
       alphaLoop ((remaining - 1) div 26) (char_of (65 + nat ((remaining - 1) mod 26)) # name)"
  by (subst alphaLoop.simps) (simp add: Let_def)

lemma alphaLoop_letters:
  "list_all isUpperAZ name \<Longrightarrow> list_all isUpperAZ (alphaLoop r name)"
proof (induction r name rule: alphaLoop.induct)
  case (1 remaining name)
  show ?case
  proof (cases "remaining > 0")
    case False
    then show ?thesis using 1(2) by (simp add: alphaLoop_stop)
  next
    case True
    let ?d = "nat ((remaining - 1) mod 26)"
    have d: "?d < 26" by simp
    have "isUpperAZ (char_of (65 + ?d))"
      unfolding isUpperAZ_def of_char_letter [OF d] using d by simp
    then have "list_all isUpperAZ (char_of (65 + ?d) # name)"
      using 1(2) by simp
    then have "list_all isUpperAZ (alphaLoop ((remaining - 1) div 26) (char_of (65 + ?d) # name))"
      using 1(1) [OF True refl refl] by simp
    then show ?thesis using True by (simp add: alphaLoop_step)
  qed
qed

lemma b26_step: "(q::int) * 26 ^ Suc n + (m + 1) * 26 ^ n = (26 * q + m + 1) * 26 ^ n"
  by (simp add: algebra_simps)

lemma alphaLoop_value:
  "0 \<le> r \<Longrightarrow> int (b26Value (alphaLoop r name)) = r * 26 ^ length name + int (b26Value name)"
proof (induction r name rule: alphaLoop.induct)
  case (1 remaining name)
  show ?case
  proof (cases "remaining > 0")
    case False
    then have "remaining = 0" using 1(2) by simp
    then show ?thesis by (simp add: alphaLoop_stop)
  next
    case True
    let ?r = "remaining - 1"
    let ?d = "nat (?r mod 26)"
    let ?c = "char_of (65 + ?d) :: char"
    have d: "?d < 26" by simp
    have r0: "0 \<le> ?r div 26" using True by simp
    have ih: "int (b26Value (alphaLoop (?r div 26) (?c # name)))
               = (?r div 26) * 26 ^ length (?c # name) + int (b26Value (?c # name))"
      using 1(1) [OF True refl refl r0] .
    have c: "int (b26Value (?c # name)) = (?r mod 26 + 1) * 26 ^ length name + int (b26Value name)"
      using of_char_letter [OF d] by (simp add: algebra_simps)
    have e1: "(?r div 26) * 26 ^ length (?c # name) + (?r mod 26 + 1) * 26 ^ length name
            = (26 * (?r div 26) + ?r mod 26 + 1) * 26 ^ length name"
      unfolding length_Cons by (rule b26_step)
    have e2: "26 * (?r div 26) + ?r mod 26 + 1 = remaining" by simp
    have "(?r div 26) * 26 ^ length (?c # name) + (?r mod 26 + 1) * 26 ^ length name
            = remaining * 26 ^ length name"
      using e1 unfolding e2 .
    then have "int (b26Value (alphaLoop (?r div 26) (?c # name)))
                 = remaining * 26 ^ length name + int (b26Value name)"
      using ih c by simp
    then show ?thesis using True by (simp add: alphaLoop_step)
  qed
qed

lemma b26Value_snoc: "b26Value (cs @ [c]) = 26 * b26Value cs + (of_char c - 64)"
  by (induction cs) (simp_all add: algebra_simps)

lemma b26_digit_range:
  "isUpperAZ c \<Longrightarrow> 1 \<le> (of_char c :: nat) - 64 \<and> (of_char c :: nat) - 64 \<le> 26"
  unfolding isUpperAZ_def by linarith

lemma b26_digits_eq:
  "26 * a + x = 26 * b + y \<Longrightarrow> 1 \<le> x \<Longrightarrow> x \<le> 26 \<Longrightarrow> 1 \<le> y \<Longrightarrow> y \<le> 26
     \<Longrightarrow> x = y \<and> a = (b :: nat)"
  by arith

lemma b26_letter_eq:
  assumes "isUpperAZ c" "isUpperAZ e" "(of_char c :: nat) - 64 = of_char e - 64"
  shows "c = e"
proof -
  have "(of_char c :: nat) = of_char e" using assms unfolding isUpperAZ_def by linarith
  then show ?thesis by simp
qed

lemma b26Value_unique:
  "list_all isUpperAZ s \<Longrightarrow> list_all isUpperAZ t \<Longrightarrow> b26Value s = b26Value t \<Longrightarrow> s = t"
proof (induction s arbitrary: t rule: rev_induct)
  case Nil
  show ?case
  proof (cases t rule: rev_cases)
    case Nil
    then show ?thesis by simp
  next
    case (snoc ds e)
    then have "isUpperAZ e" using Nil.prems(2) by simp
    from b26_digit_range [OF this] have "b26Value t \<noteq> 0"
      unfolding snoc b26Value_snoc by linarith
    then show ?thesis using Nil.prems(3) by simp
  qed
next
  case (snoc c cs)
  have c: "isUpperAZ c" and cs: "list_all isUpperAZ cs" using snoc.prems(1) by simp_all
  have pos: "b26Value (cs @ [c]) \<noteq> 0"
    using b26_digit_range [OF c] unfolding b26Value_snoc by linarith
  show ?case
  proof (cases t rule: rev_cases)
    case Nil
    then show ?thesis using snoc.prems(3) pos by simp
  next
    case t: (snoc ds e)
    have e: "isUpperAZ e" and ds: "list_all isUpperAZ ds" using snoc.prems(2) t by simp_all
    have "26 * b26Value cs + (of_char c - 64) = 26 * b26Value ds + (of_char e - 64)"
      using snoc.prems(3) unfolding t b26Value_snoc .
    from b26_digits_eq [OF this] b26_digit_range [OF c] b26_digit_range [OF e]
    have d: "(of_char c :: nat) - 64 = of_char e - 64" and v: "b26Value cs = b26Value ds"
      by simp_all
    have "c = e" by (rule b26_letter_eq [OF c e d])
    moreover have "cs = ds" by (rule snoc.IH [OF cs ds v])
    ultimately show ?thesis using t by simp
  qed
qed

subsection \<open>Message framing\<close>

lemma bindE_Inr [simp]: "bindE (Inr v) f = f v"
  by (simp add: bindE_def)

lemma bindE_Inl [simp]: "bindE (Inl e) f = Inl e"
  by (simp add: bindE_def)

lemma beNat_4: "beNat [b1, b2, b3, b4] = unat b1 * 2 ^ 24 + unat b2 * 2 ^ 16 + unat b3 * 2 ^ 8 + unat b4"
  by (simp add: beNat_def)

lemma readMessageTypeId_long:
  "readMessageTypeId (0 # b1 # b2 # b3 # b4 # rest)
     = Inr (uint b1 * 2 ^ 24 + uint b2 * 2 ^ 16 + uint b3 * 2 ^ 8 + uint b4, rest)"
  by (simp add: readMessageTypeId_def readUIntBE_def beNat_4)

lemma readMessageTypeId_short:
  "b \<noteq> 0 \<Longrightarrow> readMessageTypeId (b # rest) = Inr (uint b, rest)"
  by (simp add: readMessageTypeId_def word_greater_zero_iff)

lemma readMessageTypeId_too_short:
  "length rest < 4 \<Longrightarrow> readMessageTypeId (0 # rest) = Inl (Error ''Message too short for long ID'')"
  by (simp add: readMessageTypeId_def)

lemma uint_byte_of_int: "uint (word_of_int k :: byte) = k mod 256"
  by (simp add: uint_word_of_int)

lemma mod_split_byte:
  "(n :: int) mod (m * 256) = m * (n div m mod 256) + n mod m" if "0 \<le> m"
  using that by (simp add: zmod_zmult2_eq)

lemma be32_sum:
  assumes "0 \<le> n" "n < 4294967296"
  shows "(n div 16777216) mod 256 * 16777216 + (n div 65536) mod 256 * 65536
           + (n div 256) mod 256 * 256 + n mod 256 = (n :: int)"
proof -
  have a: "n mod 4294967296 = 16777216 * (n div 16777216 mod 256) + n mod 16777216"
    using mod_split_byte [of 16777216 n] by simp
  have b: "n mod 16777216 = 65536 * (n div 65536 mod 256) + n mod 65536"
    using mod_split_byte [of 65536 n] by simp
  have c: "n mod 65536 = 256 * (n div 256 mod 256) + n mod 256"
    using mod_split_byte [of 256 n] by simp
  have "n mod 4294967296 = n" using assms by simp
  then show ?thesis using a b c by linarith
qed

lemma readMessageTypeId_be32:
  assumes "0 \<le> n" "n < 2 ^ 32"
  shows "readMessageTypeId (0 # be32 n @ rest) = Inr (n, rest)"
proof -
  have p: "(2::int) ^ 24 = 16777216" "(2::int) ^ 16 = 65536" "(2::int) ^ 8 = 256"
    by simp_all
  have r: "readMessageTypeId (0 # be32 n @ rest)
      = Inr (uint (word_of_int (n div 2 ^ 24) :: byte) * 2 ^ 24
             + uint (word_of_int (n div 2 ^ 16) :: byte) * 2 ^ 16
             + uint (word_of_int (n div 2 ^ 8) :: byte) * 2 ^ 8
             + uint (word_of_int n :: byte), rest)"
    by (simp only: be32_def append_Cons append_Nil readMessageTypeId_long)
  have "n < 4294967296" using assms(2) by simp
  from be32_sum [OF assms(1) this]
  have "uint (word_of_int (n div 2 ^ 24) :: byte) * 2 ^ 24
             + uint (word_of_int (n div 2 ^ 16) :: byte) * 2 ^ 16
             + uint (word_of_int (n div 2 ^ 8) :: byte) * 2 ^ 8
             + uint (word_of_int n :: byte) = n"
    by (simp only: uint_byte_of_int p)
  then show ?thesis by (simp only: r)
qed

subsection \<open>The destroy decoder\<close>

lemma readUIntBE_ok: "off + n \<le> length buf \<Longrightarrow> readUIntBE n buf off = Inr (beNat (take n (drop off buf)))"
  by (simp add: readUIntBE_def)

lemma readBigInt64BE_ok:
  "off + 8 \<le> length buf \<Longrightarrow> readBigInt64BE buf off = Inr (signed64 (beNat (take 8 (drop off buf))))"
  by (simp add: readBigInt64BE_def readUIntBE_ok)

lemma decodeDestroy_ok:
  assumes "16 \<le> length payload"
  shows "decodeDestroy rt payload =
           Inr (Destroy (assetName (int (beNat (take 8 payload))))
                        (decimal (signed64 (beNat (take 8 (drop 8 payload)))))
                        (if length payload = 16 then None
                         else Some (toHex (take (min (length payload) 50 - 16) (drop 16 payload)))))"
proof -
  have a: "readUIntBE 8 payload 0 = Inr (beNat (take 8 payload))"
    using assms by (simp add: readUIntBE_ok)
  have q: "readBigInt64BE payload 8 = Inr (signed64 (beNat (take 8 (drop 8 payload))))"
    using assms by (simp add: readBigInt64BE_ok)
  show ?thesis using assms
    by (simp add: decodeDestroy_def a q assetIdToName_decimal subarray_def Let_def)
qed

lemma decodeDestroy_short:
  "length payload < 16 \<Longrightarrow> decodeDestroy rt payload = Inl (Error ''Invalid destroy payload'')"
  by (simp add: decodeDestroy_def)

lemma decodeDestroy_drops_tail:
  assumes "50 \<le> length payload"
  shows "decodeDestroy rt payload = decodeDestroy rt (take 50 payload)"
proof -
  have l: "16 \<le> length payload" "16 \<le> length (take 50 payload)" using assms by simp_all
  have t: "take (min (length payload) 50 - 16) (drop 16 payload) = take 34 (drop 16 payload)"
    using assms by (simp add: min_def)
  have t2: "take (min (length (take 50 payload)) 50 - 16) (drop 16 (take 50 payload)) = take 34 (drop 16 payload)"
    using assms by (simp add: min_def drop_take)
  show ?thesis
    unfolding decodeDestroy_ok [OF l(1)] decodeDestroy_ok [OF l(2)] t t2
    using assms by (simp add: drop_take)
qed

subsection \<open>Framed messages and the OP_RETURN parser\<close>

lemma decodeMessage_3:
  "readMessageTypeId message = Inr (3, payload) \<Longrightarrow>
     decodeMessage rt message net =
       Inr \<lparr>message_name = ''mpma_send'', message_id = 3, params = Unknown (toHex payload) None\<rparr>"
  by (simp add: decodeMessage_def MESSAGE_TYPES_def decodePayload_def decodePayloadTry_def)

lemma parse_op_return_not_op_return:
  "scriptBuffer = [] \<or> hd scriptBuffer \<noteq> 0x6a \<Longrightarrow> parse_op_return rt scriptBuffer txid net = None"
  by (auto simp add: parse_op_return_def parseOpReturnTry_def)

lemma parse_op_return_commit:
  "scriptBuffer \<noteq> [] \<Longrightarrow> hd scriptBuffer = 0x6a \<Longrightarrow> opReturnData scriptBuffer = PREFIX_BYTES \<Longrightarrow>
     parse_op_return rt scriptBuffer txid net =
       Some \<lparr>message_name = ''taproot_commit'', message_id = 0, params = TaprootCommit ''CNTRPRTY''\<rparr>"
  by (simp add: parse_op_return_def parseOpReturnTry_def)

lemma parse_op_return_no_magic:
  "opReturnData scriptBuffer \<noteq> PREFIX_BYTES \<Longrightarrow>
   take 8 (rc4Decrypt (fromHex txid) (opReturnData scriptBuffer)) \<noteq> PREFIX_BYTES \<Longrightarrow>
     parse_op_return rt scriptBuffer txid net = None"
  by (simp add: parse_op_return_def parseOpReturnTry_def subarray_def Let_def)

lemma parse_op_return_empty_message:
  "opReturnData scriptBuffer \<noteq> PREFIX_BYTES \<Longrightarrow>
   rc4Decrypt (fromHex txid) (opReturnData scriptBuffer) = PREFIX_BYTES \<Longrightarrow>
     parse_op_return rt scriptBuffer txid net = None"
  by (simp add: parse_op_return_def parseOpReturnTry_def subarray_def Let_def PREFIX_BYTES_def)

lemma parse_op_return_message:
  assumes "scriptBuffer \<noteq> []" "hd scriptBuffer = 0x6a"
    and "opReturnData scriptBuffer \<noteq> PREFIX_BYTES"
    and "rc4Decrypt (fromHex txid) (opReturnData scriptBuffer) = PREFIX_BYTES @ message"
    and "message \<noteq> []"
  shows "parse_op_return rt scriptBuffer txid net =
           (case decodeMessage rt message net of Inl e \<Rightarrow> None | Inr r \<Rightarrow> Some r)"
  using assms
  by (simp add: parse_op_return_def parseOpReturnTry_def subarray_def Let_def PREFIX_BYTES_def
           bindE_def split: sum.splits)

subsection \<open>Dispatch and the address codec\<close>

lemma decodePayloadTry_table:
  "decodePayloadTry rt messageId payload net =
     (case decoderTable rt messageId of
        None \<Rightarrow> Inr (Unknown (toHex payload) None)
      | Some decoder \<Rightarrow> decoder payload net)"
  by (simp add: decoderTable_def decodePayloadTry_def)

lemma decodePayload_table:
  "(case decoderTable rt messageId of
      None \<Rightarrow> decodePayload rt messageId payload net = Unknown (toHex payload) None
    | Some decoder \<Rightarrow>
        (case decoder payload net of
           Inl e \<Rightarrow> decodePayload rt messageId payload net = Unknown (toHex payload) (Some (errorText e))
         | Inr p \<Rightarrow> decodePayload rt messageId payload net = p))"
  by (simp add: decodePayload_def decodePayloadTry_table split: option.splits sum.splits)

lemma shortAddress_too_short:
  "length buf < 2 \<Longrightarrow> shortAddressBytesToAddress rt (toHex buf) net = ''0x'' @ toHex buf"
  by (simp add: shortAddressBytesToAddress_def shortAddressTry_def fromHex_toHex)

lemma legacy_unknown:
  "unat tag \<noteq> pubKeyHash net \<Longrightarrow> unat tag \<noteq> scriptHash net \<Longrightarrow>
     legacyBase58 rt tag data net fallback = Inr fallback"
  by (simp add: legacyBase58_def)

lemma tag_not_small:
  "0x80 \<le> (tag :: byte) \<Longrightarrow> tag \<noteq> 0x01 \<and> tag \<noteq> 0x02 \<and> tag \<noteq> 0x03"
  by (auto simp: word_le_nat_alt)

lemma shortAddressTry_cons:
  "data \<noteq> [] \<Longrightarrow>
   shortAddressTry rt (toHex (tag # data)) net =
     (let fallback = ''0x'' @ toHex (tag # data)
      in if tag = 0x01 then bindE (p2pkh rt data net) (\<lambda>a. Inr (addressOr a fallback))
         else if tag = 0x02 then bindE (p2sh rt data net) (\<lambda>a. Inr (addressOr a fallback))
         else if tag = 0x03 then
           (if length data \<ge> 2 then
              (if hd data = 0 \<and> length (tl data) = 20 then
                 bindE (p2wpkh rt (tl data) net) (\<lambda>a. Inr (addressOr a fallback))
               else if hd data = 0 \<and> length (tl data) = 32 then
                 bindE (p2wsh rt (tl data) net) (\<lambda>a. Inr (addressOr a fallback))
               else if hd data = 1 \<and> length (tl data) = 32 then
                 bindE (p2tr rt (tl data) net) (\<lambda>a. Inr (addressOr a fallback))
               else Inr fallback)
            else Inr fallback)
         else if tag \<ge> 0x80 \<and> tag \<le> 0x8f then
           (if tag - 0x80 = 0 \<and> length data = 20 then
              bindE (p2wpkh rt data net) (\<lambda>a. Inr (addressOr a fallback))
            else if tag - 0x80 = 0 \<and> length data = 32 then
              bindE (p2wsh rt data net) (\<lambda>a. Inr (addressOr a fallback))
            else if tag - 0x80 = 1 \<and> length data = 32 then
              bindE (p2tr rt data net) (\<lambda>a. Inr (addressOr a fallback))
            else legacyBase58 rt tag data net fallback)
         else legacyBase58 rt tag data net fallback)"
  by (simp only: shortAddressTry_def fromHex_toHex Let_def list.sel)
     (cases data; simp)

lemma shortAddress_unknown_tag:
  assumes "2 \<le> length buf"
    and "hd buf \<noteq> 0x01" "hd buf \<noteq> 0x02" "hd buf \<noteq> 0x03"
    and "\<not> (0x80 \<le> hd buf \<and> hd buf \<le> 0x8f)"
    and "unat (hd buf) \<noteq> pubKeyHash net" "unat (hd buf) \<noteq> scriptHash net"
  shows "shortAddressBytesToAddress rt (toHex buf) net = ''0x'' @ toHex buf"
proof -
  obtain tag data where b: "buf = tag # data" "data \<noteq> []"
    using assms(1) by (cases buf; cases "tl buf") auto
  have c: "(tag = 0x01) = False" "(tag = 0x02) = False" "(tag = 0x03) = False"
    "(tag \<ge> 0x80 \<and> tag \<le> 0x8f) = False"
    using assms(2-5) b(1) by simp_all
  have u: "unat tag \<noteq> pubKeyHash net" "unat tag \<noteq> scriptHash net"
    using assms(6,7) b(1) by simp_all
  have "shortAddressTry rt (toHex (tag # data)) net = Inr (''0x'' @ toHex (tag # data))"
    unfolding shortAddressTry_cons [OF b(2)] Let_def
    by (simp only: c if_False legacy_unknown [OF u])
  then show ?thesis by (simp add: shortAddressBytesToAddress_def b(1))
qed

lemma shortAddress_tag3:
  assumes "2 \<le> length buf" "hd buf = 0x03"
    and "\<not> validWitnessProgram (hd (tl buf)) (length buf - 2)"
  shows "shortAddressBytesToAddress rt (toHex buf) net = ''0x'' @ toHex buf"
proof -
  obtain data where b: "buf = 0x03 # data" "data \<noteq> []"
    using assms(1,2) by (cases buf; cases "tl buf") auto
  have l: "length (tl data) = length buf - 2" using b by simp
  have "shortAddressTry rt (toHex (0x03 # data)) net = Inr (''0x'' @ toHex (0x03 # data))"
    unfolding shortAddressTry_cons [OF b(2)] Let_def l
    using assms(3) b(1) by (auto simp: validWitnessProgram_def)
  then show ?thesis by (simp add: shortAddressBytesToAddress_def b(1))
qed

lemma shortAddress_marker_unfit:
  assumes "2 \<le> length buf" "0x80 \<le> hd buf" "hd buf \<le> 0x8f"
    and "\<not> validWitnessProgram (hd buf - 0x80) (length buf - 1)"
    and "unat (hd buf) \<noteq> pubKeyHash net" "unat (hd buf) \<noteq> scriptHash net"
  shows "shortAddressBytesToAddress rt (toHex buf) net = ''0x'' @ toHex buf"
proof -
  obtain tag data where b: "buf = tag # data" "data \<noteq> []"
    using assms(1) by (cases buf; cases "tl buf") auto
  have t: "tag \<noteq> 0x01" "tag \<noteq> 0x02" "tag \<noteq> 0x03" "0x80 \<le> tag" "tag \<le> 0x8f"
    using assms(2,3) tag_not_small [of tag] b(1) by simp_all
  have v: "\<not> validWitnessProgram (tag - 0x80) (length data)"
    using assms(4) b(1) by simp
  have "shortAddressTry rt (toHex (tag # data)) net = Inr (''0x'' @ toHex (tag # data))"
    unfolding shortAddressTry_cons [OF b(2)] Let_def
    using t v assms(5,6) b(1) by (auto simp: validWitnessProgram_def legacy_unknown)
  then show ?thesis by (simp add: shortAddressBytesToAddress_def b(1))
qed

lemma decoderTable_dom:
  "(decoderTable rt messageId \<noteq> None) =
     (messageId \<in> {2, 4, 10, 11, 12, 13, 20, 21, 22, 23, 30, 50, 70, 90, 91, 101, 102, 110})"
  by (simp add: decoderTable_def)

subsection \<open>Little-endian lengths\<close>

lemma unat_byte_of_nat: "unat (word_of_nat n :: byte) = n mod 256"
  by (simp add: unat_of_nat)

lemma leNat_le16: "n \<le> 65535 \<Longrightarrow> leNat (le16 n) = n"
proof -
  assume a: "n \<le> 65535"
  then have "n div 256 < 256" by simp
  then have "n div 256 mod 256 = n div 256" by simp
  then show ?thesis by (simp add: le16_def unat_byte_of_nat)
qed

lemma mod_split_nat: "(n :: nat) mod (m * 256) = m * (n div m mod 256) + n mod m"
  by (simp add: mod_mult2_eq)

lemma nest256:
  "a + 256 * (b + 256 * (c + 256 * d)) = a + 256 * b + 65536 * c + 16777216 * (d :: nat)"
  by simp

lemma le32_sum:
  assumes "n < 4294967296"
  shows "n mod 256 + 256 * (n div 256 mod 256 + 256 * (n div 65536 mod 256 + 256 * (n div 16777216 mod 256)))
           = (n :: nat)"
proof -
  have a: "n mod 4294967296 = 16777216 * (n div 16777216 mod 256) + n mod 16777216"
    using mod_split_nat [of n 16777216] by simp
  have b: "n mod 16777216 = 65536 * (n div 65536 mod 256) + n mod 65536"
    using mod_split_nat [of n 65536] by simp
  have c: "n mod 65536 = 256 * (n div 256 mod 256) + n mod 256"
    using mod_split_nat [of n 256] by simp
  have "n mod 4294967296 = n" using assms by simp
  then have "n mod 256 + 256 * (n div 256 mod 256) + 65536 * (n div 65536 mod 256)
               + 16777216 * (n div 16777216 mod 256) = n"
    using a b c by linarith
  then show ?thesis by (simp only: nest256)
qed

lemma leNat_le32: "n \<le> 4294967295 \<Longrightarrow> leNat (le32 n) = n"
proof -
  assume "n \<le> 4294967295"
  then have "n < 4294967296" by simp
  from le32_sum [OF this] show ?thesis
    by (simp only: le32_def leNat.simps unat_byte_of_nat mult_0_right add_0_right)
qed

subsection \<open>The generic envelope scanner\<close>

lemma nth_after_prefix: "(pre @ ys) ! (length pre + k) = ys ! k"
  by (simp add: nth_append)

lemma byteAt_after_prefix: "byteAt (pre @ ys) (length pre + k) = byteAt ys k"
  by (simp add: byteAt_def nth_append)

lemma subarray_after_prefix:
  "subarray (pre @ ys) (length pre + k) (length pre + k + n) = take n (drop k ys)"
  by (simp add: subarray_def)

lemma readUIntLE_after_prefix:
  "readUIntLE n (pre @ ys) (length pre + k) = readUIntLE n ys k"
  by (simp add: readUIntLE_def)

lemma small_byte:
  assumes "n < 256"
  shows "unat (word_of_nat n :: byte) = n"
  using assms by (simp add: unat_byte_of_nat)

lemma byte_neq_by_unat: "unat (a :: byte) \<noteq> unat b \<Longrightarrow> a \<noteq> b"
  by auto

lemma short_opcode:
  assumes "1 \<le> n" "n \<le> 75"
  shows "(word_of_nat n :: byte) \<noteq> 0x68" "(word_of_nat n :: byte) > 0" "(word_of_nat n :: byte) \<le> 75"
    "(word_of_nat n :: byte) \<noteq> 0x00" "(word_of_nat n :: byte) \<noteq> 0x6f"
    "(word_of_nat n :: byte) \<noteq> 0x4c"
proof -
  have u: "unat (word_of_nat n :: byte) = n" using assms by (simp add: small_byte)
  show "(word_of_nat n :: byte) \<noteq> 0x68" by (rule byte_neq_by_unat) (use u assms in simp)
  show "(word_of_nat n :: byte) > 0" using u assms by (simp add: word_less_nat_alt)
  show "(word_of_nat n :: byte) \<le> 75" using u assms by (simp add: word_le_nat_alt)
  show "(word_of_nat n :: byte) \<noteq> 0x00" by (rule byte_neq_by_unat) (use u assms in simp)
  show "(word_of_nat n :: byte) \<noteq> 0x6f" by (rule byte_neq_by_unat) (use u assms in simp)
  show "(word_of_nat n :: byte) \<noteq> 0x4c" by (rule byte_neq_by_unat) (use u assms in simp)
qed

lemma genericLoop_end: "genericLoop (pre @ 0x68 # post) (length pre) acc = Inr acc"
  by (subst genericLoop.simps) simp

lemma genericLoop_step_short:
  assumes "offset < length script" "script ! offset = b" "b \<noteq> 0x68" "b > 0" "b \<le> 75"
    and "unat b = n" "subarray script (offset + 1) (offset + 1 + n) = c"
  shows "genericLoop script offset acc = genericLoop script (offset + 1 + n) (acc @ [c])"
  using genericLoop.simps [of script offset acc] assms by (simp add: Let_def)

lemma genericLoop_step_pushdata1:
  assumes "offset < length script" "script ! offset = 0x4c"
    and "byteAt script (offset + 1) = Some b"
    and "unat b = n" "subarray script (offset + 2) (offset + 2 + n) = c"
  shows "genericLoop script offset acc = genericLoop script (offset + 2 + n) (acc @ [c])"
  using genericLoop.simps [of script offset acc] assms by (simp add: Let_def)

lemma genericLoop_step_pushdata2:
  assumes "offset < length script" "script ! offset = 0x4d"
    and "readUIntLE 2 script (offset + 1) = Inr n"
    and "subarray script (offset + 3) (offset + 3 + n) = c"
  shows "genericLoop script offset acc = genericLoop script (offset + 3 + n) (acc @ [c])"
  using genericLoop.simps [of script offset acc] assms by (simp add: Let_def)

lemma genericLoop_step_pushdata4:
  assumes "offset < length script" "script ! offset = 0x4e"
    and "readUIntLE 4 script (offset + 1) = Inr n"
    and "subarray script (offset + 5) (offset + 5 + n) = c"
  shows "genericLoop script offset acc = genericLoop script (offset + 5 + n) (acc @ [c])"
  using genericLoop.simps [of script offset acc] assms by (simp add: Let_def)

lemma length_encodePush:
  "length (encodePush w c) =
     (case w of ShortPush \<Rightarrow> 1 | PushData1 \<Rightarrow> 2 | PushData2 \<Rightarrow> 3 | PushData4 \<Rightarrow> 5) + length c"
  by (cases w) (simp_all add: encodePush_def le16_def le32_def)

lemma genericLoop_push:
  assumes "fitsPush w c"
  shows "genericLoop (pre @ encodePush w c @ rest) (length pre) acc
         = genericLoop (pre @ encodePush w c @ rest) (length pre + length (encodePush w c)) (acc @ [c])"
proof -
  define script where "script = pre @ encodePush w c @ rest"
  have lt: "length pre < length script"
    by (simp add: script_def length_encodePush split: pushWidth.splits)
  show ?thesis
  proof (cases w)
    case ShortPush
    then have f: "1 \<le> length c" "length c \<le> 75" using assms by (simp_all add: fitsPush_def)
    have e: "script = pre @ (word_of_nat (length c) # c @ rest)"
      by (simp add: script_def encodePush_def ShortPush)
    have h: "script ! length pre = word_of_nat (length c)"
      unfolding e by simp
    have u: "unat (word_of_nat (length c) :: byte) = length c" using f by (simp add: small_byte)
    have s: "subarray script (length pre + 1) (length pre + 1 + length c) = c"
      unfolding e using subarray_after_prefix [of pre "word_of_nat (length c) # c @ rest" 1 "length c"]
      by simp
    have "genericLoop script (length pre) acc = genericLoop script (length pre + 1 + length c) (acc @ [c])"
      using genericLoop_step_short [OF lt h short_opcode(1-3) [OF f] u s] .
    then show ?thesis
      by (simp add: script_def length_encodePush ShortPush add.assoc)
  next
    case PushData1
    then have f: "length c \<le> 255" using assms by (simp add: fitsPush_def)
    have e: "script = pre @ (0x4c # word_of_nat (length c) # c @ rest)"
      by (simp add: script_def encodePush_def PushData1)
    have h: "script ! length pre = 0x4c"
      unfolding e by simp
    have u: "unat (word_of_nat (length c) :: byte) = length c" using f by (simp add: small_byte)
    have b: "byteAt script (length pre + 1) = Some (word_of_nat (length c))"
      unfolding e byteAt_after_prefix by (simp add: byteAt_def)
    have s: "subarray script (length pre + 2) (length pre + 2 + length c) = c"
      unfolding e using subarray_after_prefix [of pre "0x4c # word_of_nat (length c) # c @ rest" 2 "length c"]
      by simp
    have "genericLoop script (length pre) acc = genericLoop script (length pre + 2 + length c) (acc @ [c])"
      using genericLoop_step_pushdata1 [OF lt h b u s] .
    then show ?thesis
      by (simp add: script_def length_encodePush PushData1 add.assoc)
  next
    case PushData2
    then have f: "length c \<le> 65535" using assms by (simp add: fitsPush_def)
    obtain l0 l1 where l: "le16 (length c) = [l0, l1]" by (simp add: le16_def)
    have e: "script = pre @ (0x4d # l0 # l1 # c @ rest)"
      by (simp add: script_def encodePush_def PushData2 l)
    have h: "script ! length pre = 0x4d"
      unfolding e by simp
    have r: "readUIntLE 2 script (length pre + 1) = Inr (length c)"
      unfolding e readUIntLE_after_prefix using leNat_le16 [OF f]
      by (simp add: readUIntLE_def l)
    have s: "subarray script (length pre + 3) (length pre + 3 + length c) = c"
      unfolding e using subarray_after_prefix [of pre "0x4d # l0 # l1 # c @ rest" 3 "length c"]
      by simp
    have "genericLoop script (length pre) acc = genericLoop script (length pre + 3 + length c) (acc @ [c])"
      using genericLoop_step_pushdata2 [OF lt h r s] .
    then show ?thesis
      by (simp add: script_def length_encodePush PushData2 add.assoc)
  next
    case PushData4
    then have f: "length c \<le> 4294967295" using assms by (simp add: fitsPush_def)
    obtain l0 l1 l2 l3 where l: "le32 (length c) = [l0, l1, l2, l3]" by (simp add: le32_def)
    have e: "script = pre @ (0x4e # l0 # l1 # l2 # l3 # c @ rest)"
      by (simp add: script_def encodePush_def PushData4 l)
    have h: "script ! length pre = 0x4e"
      unfolding e by simp
    have r: "readUIntLE 4 script (length pre + 1) = Inr (length c)"
      unfolding e readUIntLE_after_prefix using leNat_le32 [OF f]
      by (simp add: readUIntLE_def l)
    have s: "subarray script (length pre + 5) (length pre + 5 + length c) = c"
      unfolding e using subarray_after_prefix [of pre "0x4e # l0 # l1 # l2 # l3 # c @ rest" 5 "length c"]
      by simp
    have "genericLoop script (length pre) acc = genericLoop script (length pre + 5 + length c) (acc @ [c])"
      using genericLoop_step_pushdata4 [OF lt h r s] .
    then show ?thesis
      by (simp add: script_def length_encodePush PushData4 add.assoc)
  qed
qed

lemma encodePushes_Cons: "encodePushes (p # ps) = encodePush (fst p) (snd p) @ encodePushes ps"
  by (simp add: encodePushes_def)

lemma genericLoop_pushes:
  "wellFormedPushes pushes \<Longrightarrow>
     genericLoop (pre @ encodePushes pushes @ 0x68 # post) (length pre) acc
       = Inr (acc @ map snd pushes)"
proof (induction pushes arbitrary: pre acc)
  case Nil
  then show ?case by (simp add: encodePushes_def genericLoop_end)
next
  case (Cons p ps)
  have f: "fitsPush (fst p) (snd p)" and w: "wellFormedPushes ps"
    using Cons.prems by (simp_all add: wellFormedPushes_def)
  have "genericLoop (pre @ encodePushes (p # ps) @ 0x68 # post) (length pre) acc
        = genericLoop (pre @ encodePush (fst p) (snd p) @ (encodePushes ps @ 0x68 # post)) (length pre) acc"
    by (simp add: encodePushes_Cons)
  also have "\<dots> = genericLoop (pre @ encodePush (fst p) (snd p) @ (encodePushes ps @ 0x68 # post))
                      (length pre + length (encodePush (fst p) (snd p))) (acc @ [snd p])"
    by (rule genericLoop_push [OF f])
  also have "\<dots> = genericLoop ((pre @ encodePush (fst p) (snd p)) @ encodePushes ps @ 0x68 # post)
                      (length (pre @ encodePush (fst p) (snd p))) (acc @ [snd p])"
    by simp
  also have "\<dots> = Inr ((acc @ [snd p]) @ map snd ps)"
    by (rule Cons.IH [OF w])
  finally show ?case by simp
qed

subsection \<open>The ord/xcp envelope scanner\<close>

lemma ordXcpLoop_end: "ordXcpLoop (pre @ 0x68 # post) (length pre) acc = acc"
  by (subst ordXcpLoop.simps) simp

lemma ordXcpLoop_step_short:
  assumes "offset < length script" "script ! offset = b" "b \<noteq> 0x68" "b > 0" "b \<le> 75" "b \<noteq> 0x00"
    and "unat b = n" "subarray script (offset + 1) (offset + 1 + n) = c"
  shows "ordXcpLoop script offset acc = ordXcpLoop script (offset + 1 + n) (acc @ [c])"
  using ordXcpLoop.simps [of script offset acc] assms by (simp add: Let_def)

lemma ordXcpLoop_step_pushdata1:
  assumes "offset < length script" "script ! offset = 0x4c"
    and "byteAt script (offset + 1) = Some b"
    and "unat b = n" "subarray script (offset + 2) (offset + 2 + n) = c"
  shows "ordXcpLoop script offset acc = ordXcpLoop script (offset + 2 + n) (acc @ [c])"
  using ordXcpLoop.simps [of script offset acc] assms by (simp add: Let_def)

lemma ordXcpLoop_push:
  assumes "fitsPush w c" "w = ShortPush \<or> w = PushData1"
  shows "ordXcpLoop (pre @ encodePush w c @ rest) (length pre) acc
         = ordXcpLoop (pre @ encodePush w c @ rest) (length pre + length (encodePush w c)) (acc @ [c])"
proof -
  define script where "script = pre @ encodePush w c @ rest"
  have lt: "length pre < length script"
    by (simp add: script_def length_encodePush split: pushWidth.splits)
  from assms(2) show ?thesis
  proof
    assume ShortPush: "w = ShortPush"
    then have f: "1 \<le> length c" "length c \<le> 75" using assms by (simp_all add: fitsPush_def)
    have e: "script = pre @ (word_of_nat (length c) # c @ rest)"
      by (simp add: script_def encodePush_def ShortPush)
    have h: "script ! length pre = word_of_nat (length c)"
      unfolding e by simp
    have u: "unat (word_of_nat (length c) :: byte) = length c" using f by (simp add: small_byte)
    have s: "subarray script (length pre + 1) (length pre + 1 + length c) = c"
      unfolding e using subarray_after_prefix [of pre "word_of_nat (length c) # c @ rest" 1 "length c"]
      by simp
    have "ordXcpLoop script (length pre) acc = ordXcpLoop script (length pre + 1 + length c) (acc @ [c])"
      using ordXcpLoop_step_short [OF lt h short_opcode(1-4) [OF f] u s] .
    then show ?thesis
      by (simp add: script_def length_encodePush ShortPush add.assoc)
  next
    assume PushData1: "w = PushData1"
    then have f: "length c \<le> 255" using assms by (simp add: fitsPush_def)
    have e: "script = pre @ (0x4c # word_of_nat (length c) # c @ rest)"
      by (simp add: script_def encodePush_def PushData1)
    have h: "script ! length pre = 0x4c"
      unfolding e by simp
    have u: "unat (word_of_nat (length c) :: byte) = length c" using f by (simp add: small_byte)
    have b: "byteAt script (length pre + 1) = Some (word_of_nat (length c))"
      unfolding e byteAt_after_prefix by (simp add: byteAt_def)
    have s: "subarray script (length pre + 2) (length pre + 2 + length c) = c"
      unfolding e using subarray_after_prefix [of pre "0x4c # word_of_nat (length c) # c @ rest" 2 "length c"]
      by simp
    have "ordXcpLoop script (length pre) acc = ordXcpLoop script (length pre + 2 + length c) (acc @ [c])"
      using ordXcpLoop_step_pushdata1 [OF lt h b u s] .
    then show ?thesis
      by (simp add: script_def length_encodePush PushData1 add.assoc)
  qed
qed

lemma ordXcpLoop_pushes:
  "wellFormedPushes pushes \<Longrightarrow> shortOrPushData1 pushes \<Longrightarrow>
     ordXcpLoop (pre @ encodePushes pushes @ 0x68 # post) (length pre) acc = acc @ map snd pushes"
proof (induction pushes arbitrary: pre acc)
  case Nil
  then show ?case by (simp add: encodePushes_def ordXcpLoop_end)
next
  case (Cons p ps)
  have f: "fitsPush (fst p) (snd p)" and w: "wellFormedPushes ps"
    using Cons.prems by (simp_all add: wellFormedPushes_def)
  have k: "fst p = ShortPush \<or> fst p = PushData1" and ks: "shortOrPushData1 ps"
    using Cons.prems by (simp_all add: shortOrPushData1_def)
  have "ordXcpLoop (pre @ encodePushes (p # ps) @ 0x68 # post) (length pre) acc
        = ordXcpLoop (pre @ encodePush (fst p) (snd p) @ (encodePushes ps @ 0x68 # post)) (length pre) acc"
    by (simp add: encodePushes_Cons)
  also have "\<dots> = ordXcpLoop (pre @ encodePush (fst p) (snd p) @ (encodePushes ps @ 0x68 # post))
                      (length pre + length (encodePush (fst p) (snd p))) (acc @ [snd p])"
    by (rule ordXcpLoop_push [OF f k])
  also have "\<dots> = ordXcpLoop ((pre @ encodePush (fst p) (snd p)) @ encodePushes ps @ 0x68 # post)
                      (length (pre @ encodePush (fst p) (snd p))) (acc @ [snd p])"
    by simp
  also have "\<dots> = (acc @ [snd p]) @ map snd ps"
    by (rule Cons.IH [OF w ks])
  finally show ?case by simp
qed

lemma extractGenericEnvelope_pushes:
  assumes "wellFormedPushes pushes"
  shows "extractGenericEnvelope (genericEnvelope pushes) 2 = Some (pushedData pushes)"
proof -
  have "genericLoop ([0x00, 0x63] @ encodePushes pushes @ 0x68 # []) (length [0x00, 0x63 :: byte]) []
          = Inr ([] @ map snd pushes)"
    by (rule genericLoop_pushes [OF assms])
  then show ?thesis
    by (simp add: extractGenericEnvelope_def genericEnvelope_def pushedData_def numeral_2_eq_2)
qed

lemma encodePush_opcode:
  assumes "fitsPush w c"
  shows "\<exists>op tail. encodePush w c = op # tail \<and> op \<noteq> 0x6f \<and> tail \<noteq> []"
proof (cases w)
  case ShortPush
  then have f: "1 \<le> length c" "length c \<le> 75" using assms by (simp_all add: fitsPush_def)
  then have "c \<noteq> []" by auto
  then show ?thesis using short_opcode(5) [OF f] by (simp add: encodePush_def ShortPush)
qed (simp_all add: encodePush_def le16_def le32_def)

lemma extractFromEnvelope_generic:
  assumes "wellFormedPushes pushes" "pushes \<noteq> []"
  shows "extractFromEnvelope rt (genericEnvelope pushes) = Some (pushedData pushes)"
proof -
  obtain p ps where p: "pushes = p # ps" using assms(2) by (cases pushes) auto
  have "fitsPush (fst p) (snd p)" using assms(1) p by (simp add: wellFormedPushes_def)
  from encodePush_opcode [OF this]
  obtain op tail where o: "encodePush (fst p) (snd p) = op # tail" "op \<noteq> 0x6f" "tail \<noteq> []"
    by blast
  obtain t ts where t: "tail = t # ts" using o(3) by (cases tail) auto
  define rest where "rest = ts @ encodePushes ps @ [0x68]"
  have e: "genericEnvelope pushes = 0x00 # 0x63 # op # t # rest"
    by (simp add: genericEnvelope_def p encodePushes_Cons o t rest_def)
  have g: "extractGenericEnvelope (0x00 # 0x63 # op # t # rest) 2 = Some (pushedData pushes)"
    using extractGenericEnvelope_pushes [OF assms(1)] e by simp
  have "subarray (0x00 # 0x63 # op # t # rest) 2 (2 + 3) \<noteq> ordBytes"
    using o(2) by (cases rest) (simp_all add: subarray_def ordBytes_def)
  then show ?thesis
    unfolding e by (simp add: extractFromEnvelope_def g)
qed

subsection \<open>Envelope extraction and re-framing\<close>

lemma extractOrdXcpTry_facts:
  assumes "byteAt script 9 = Some 0x01"
    and "byteAt script 10 = Some len" "unat len = n"
    and "subarray script 11 (11 + n) = mimeType"
    and "byteAt script (11 + n) = Some 0x05"
    and "ordXcpLoop script (12 + n) [] = chunks"
  shows "extractOrdXcpTry rt script 9 = reframe rt (concat chunks) mimeType"
  using assms by (simp add: extractOrdXcpTry_def Let_def add.commute)

lemma extractFromEnvelope_facts:
  assumes "4 \<le> length script" "script ! 0 = 0x00" "script ! 1 = 0x63"
    and "subarray script 2 5 = ordBytes" "byteAt script 5 = Some 0x07"
    and "9 \<le> length script" "subarray script 6 9 = xcpBytes"
  shows "extractFromEnvelope rt script = extractOrdXcpEnvelope rt script 9"
  using assms by (simp add: extractFromEnvelope_def Let_def)

lemma extractFromEnvelope_ordXcp:
  assumes "length mimeType \<le> 255" "wellFormedPushes pushes" "shortOrPushData1 pushes"
  shows "extractFromEnvelope rt (ordXcpEnvelope mimeType pushes)
           = (case reframe rt (pushedData pushes) mimeType of Inl e \<Rightarrow> None | Inr r \<Rightarrow> r)"
proof -
  define script where "script = ordXcpEnvelope mimeType pushes"
  define len :: byte where "len = word_of_nat (length mimeType)"
  define pre11 :: buffer where "pre11 = [0x00, 0x63, 0x6f, 0x72, 0x64, 0x07, 0x78, 0x63, 0x70, 0x01, len]"
  define header where "header = pre11 @ mimeType @ [0x05]"
  have e1: "script = 0x00 # 0x63 # 0x6f # 0x72 # 0x64 # 0x07 # 0x78 # 0x63 # 0x70 # 0x01 # len
                      # (mimeType @ 0x05 # encodePushes pushes @ [0x68])"
    by (simp add: script_def ordXcpEnvelope_def ordBytes_def xcpBytes_def len_def)
  have e2: "script = header @ encodePushes pushes @ 0x68 # []"
    by (simp add: e1 header_def pre11_def)
  have e3: "script = (pre11 @ mimeType) @ (0x05 # encodePushes pushes @ [0x68])"
    by (simp add: e1 pre11_def)
  have l11: "length (pre11 @ mimeType) = 11 + length mimeType" by (simp add: pre11_def)
  have lh: "length header = 12 + length mimeType" by (simp add: header_def pre11_def)
  have u: "unat len = length mimeType" using assms(1) by (simp add: len_def small_byte)
  have f1: "4 \<le> length script" "9 \<le> length script" by (simp_all add: e1)
  have f2: "script ! 0 = 0x00" "script ! 1 = 0x63" by (simp_all add: e1)
  have f3: "subarray script 2 5 = ordBytes" "subarray script 6 9 = xcpBytes"
    by (simp_all add: e1 subarray_def ordBytes_def xcpBytes_def)
  have f4: "byteAt script 5 = Some 0x07" "byteAt script 9 = Some 0x01" "byteAt script 10 = Some len"
    by (simp_all add: e1 byteAt_def)
  have f5: "subarray script 11 (11 + length mimeType) = mimeType"
    by (simp add: e1 subarray_def)
  have f6: "byteAt script (11 + length mimeType) = Some 0x05"
    using byteAt_after_prefix [of "pre11 @ mimeType" "0x05 # encodePushes pushes @ [0x68]" 0]
    unfolding l11 e3 by (simp add: byteAt_def)
  have f7: "ordXcpLoop script (12 + length mimeType) [] = map snd pushes"
    using ordXcpLoop_pushes [OF assms(2,3), of header "[]" "[]"]
    unfolding lh e2 by simp
  have "extractFromEnvelope rt script = extractOrdXcpEnvelope rt script 9"
    by (rule extractFromEnvelope_facts [OF f1(1) f2 f3(1) f4(1) f1(2) f3(2)])
  also have "\<dots> = (case reframe rt (concat (map snd pushes)) mimeType of Inl e \<Rightarrow> None | Inr r \<Rightarrow> r)"
    unfolding extractOrdXcpEnvelope_def
    by (simp only: extractOrdXcpTry_facts [OF f4(2) f4(3) u f5 f6 f7])
  finally show ?thesis by (simp add: script_def pushedData_def)
qed

lemma reframe_array:
  assumes "cborDecode rt cborData = Inr (JArray (first # rest))"
    and "cborEncode rt (JArray (rest @ [JString (utf8Decode rt mimeType)])) = Inr reencoded"
  shows "reframe rt cborData mimeType =
           bindE (messageTypeIdPrefix rt first) (\<lambda>prefix. Inr (Some (prefix @ reencoded)))"
  using assms by (simp add: reframe_def Let_def)

lemma prefix_short:
  "0 < n \<Longrightarrow> n < 256 \<Longrightarrow> messageTypeIdPrefix rt (JInt n) = Inr [word_of_int n]"
  by (simp add: messageTypeIdPrefix_def)

lemma prefix_long:
  "n = 0 \<or> 256 \<le> n \<Longrightarrow> n \<le> 4294967295 \<Longrightarrow> messageTypeIdPrefix rt (JInt n) = Inr (0 # be32 n)"
  by (auto simp add: messageTypeIdPrefix_def)

lemma prefix_out_of_range:
  "n < 0 \<or> 4294967295 < n \<Longrightarrow> \<exists>e. messageTypeIdPrefix rt (JInt n) = Inl e"
  by (auto simp add: messageTypeIdPrefix_def)

lemma readMessageTypeId_short_int:
  assumes "0 < n" "n < 256"
  shows "readMessageTypeId (word_of_int n # rest) = Inr (n, rest)"
proof -
  have u: "uint (word_of_int n :: byte) = n" using assms by (simp add: uint_byte_of_int)
  then have "(word_of_int n :: byte) \<noteq> 0" using assms by auto
  from readMessageTypeId_short [OF this] u show ?thesis by simp
qed

subsection \<open>The reveal parser\<close>

lemma parse_reveal_generic:
  assumes "extractWitnessScript rt (fromHex hex) = Some (genericEnvelope pushes)"
    and "wellFormedPushes pushes"
  shows "parse_reveal_tx rt hex net =
           (if pushedData pushes = [] then None
            else (case decodeMessage rt (pushedData pushes) net of Inl e \<Rightarrow> None | Inr r \<Rightarrow> Some r))"
proof (cases "pushes = []")
  case True
  then have "extractFromEnvelope rt (genericEnvelope pushes) = None"
    by (simp add: extractFromEnvelope_def genericEnvelope_def encodePushes_def)
  then show ?thesis using assms(1) True
    by (simp add: parse_reveal_tx_def pushedData_def)
next
  case False
  from extractFromEnvelope_generic [OF assms(2) False, of rt] assms(1)
  show ?thesis by (simp add: parse_reveal_tx_def)
qed

lemma parse_reveal_ordXcp:
  assumes "extractWitnessScript rt (fromHex hex) = Some (ordXcpEnvelope mimeType pushes)"
    and "length mimeType \<le> 255" "wellFormedPushes pushes" "shortOrPushData1 pushes"
  shows "parse_reveal_tx rt hex net =
           (case reframe rt (pushedData pushes) mimeType of
              Inl e \<Rightarrow> None
            | Inr None \<Rightarrow> None
            | Inr (Some message) \<Rightarrow>
                if message = [] then None
                else (case decodeMessage rt message net of Inl e \<Rightarrow> None | Inr r \<Rightarrow> Some r))"
  using extractFromEnvelope_ordXcp [OF assms(2-4), of rt] assms(1)
  by (simp add: parse_reveal_tx_def split: sum.splits option.splits)

lemma exampleRuntime_witness_script:
  "2 < length script \<Longrightarrow> script ! 0 = 0x00 \<Longrightarrow> script ! 1 = 0x63 \<Longrightarrow>
     extractWitnessScript exampleRuntime (fromHex (toHex script)) = Some script"
  by (simp add: extractWitnessScript_def exampleRuntime_def hasWitnesses_def fromHex_toHex)

section \<open>The claims\<close>

text \<open>
  Claim C1. For every message-type id and every payload, \<open>decodePayload\<close> returns a
  payload and throws nothing. When the id is one of 2, 4, 10, 11, 12, 13, 20, 21, 22, 23, 30,
  50, 70, 90, 91, 101, 102, 110 the result is what the selected decoder returns, and when that
  decoder throws an error it is the Unknown payload with the hex of the payload as \<open>raw\<close>
  and the error's message as \<open>error\<close> (the text \<open>Unknown error\<close> for a thrown value that
  is no error object). When the id is not in the table the result is the Unknown payload
  with \<open>raw\<close> only.
\<close>

theorem decodePayload_dispatch:
  "(case decoderTable rt messageId of
      None \<Rightarrow> decodePayload rt messageId payload net = Unknown (toHex payload) None
    | Some decoder \<Rightarrow>
        (case decoder payload net of
           Inl (Error message) \<Rightarrow>
             decodePayload rt messageId payload net = Unknown (toHex payload) (Some message)
         | Inl NonError \<Rightarrow>
             decodePayload rt messageId payload net = Unknown (toHex payload) (Some ''Unknown error'')
         | Inr p \<Rightarrow> decodePayload rt messageId payload net = p))
   \<and> ((decoderTable rt messageId \<noteq> None) =
        (messageId \<in> {2, 4, 10, 11, 12, 13, 20, 21, 22, 23, 30, 50, 70, 90, 91, 101, 102, 110}))"
proof -
  have "case decoderTable rt messageId of
      None \<Rightarrow> decodePayload rt messageId payload net = Unknown (toHex payload) None
    | Some decoder \<Rightarrow>
        (case decoder payload net of
           Inl (Error message) \<Rightarrow>
             decodePayload rt messageId payload net = Unknown (toHex payload) (Some message)
         | Inl NonError \<Rightarrow>
             decodePayload rt messageId payload net = Unknown (toHex payload) (Some ''Unknown error'')
         | Inr p \<Rightarrow> decodePayload rt messageId payload net = p)"
    using decodePayload_table [of rt messageId payload net]
    by (simp add: errorText_def split: option.splits sum.splits exn.splits)
  then show ?thesis using decoderTable_dom [of rt messageId] by simp
qed

theorem decodePayload_dispatch_witness:
  "decodePayload exampleRuntime 13 [0x01] bitcoinNetwork
     = Unknown ''01'' (Some ''Invalid dispense payload: expected 0x00'')
   \<and> decodePayload exampleRuntime 999 [0x01] bitcoinNetwork = Unknown ''01'' None"
  using decodePayload_dispatch [of exampleRuntime 13 "[0x01]" bitcoinNetwork]
    decodePayload_dispatch [of exampleRuntime 999 "[0x01]" bitcoinNetwork]
  by (simp add: decoderTable_def decodeDispense_def toHex_def byteHex_def hexDigit_def)

text \<open>
  Claim C2. For every non-empty key and every data buffer, applying the RC4 keystream
  function twice with the same key gives the data back, and each application returns a
  buffer as long as the data.
\<close>

theorem rc4_self_inverse:
  "key \<noteq> [] \<Longrightarrow>
     rc4Decrypt key (rc4Decrypt key data) = data
     \<and> length (rc4Decrypt key data) = length data"
  by (simp add: rc4Decrypt_twice length_rc4Decrypt)

theorem rc4_self_inverse_witness:
  "[0xAA, 0xBB :: byte] \<noteq> []
   \<and> rc4Decrypt [0xAA, 0xBB] (rc4Decrypt [0xAA, 0xBB] [0x43, 0x4E, 0x54]) = [0x43, 0x4E, 0x54]
   \<and> length (rc4Decrypt [0xAA, 0xBB] [0x43, 0x4E, 0x54]) = length [0x43, 0x4E, 0x54 :: byte]"
  using rc4_self_inverse [of "[0xAA, 0xBB]" "[0x43, 0x4E, 0x54]"] by simp

text \<open>
  Claim C3. \<open>assetIdToName\<close> maps 0 to BTC, 1 to XCP, every id from 2 up to \<open>26^3 - 1\<close> to
  \<open>A\<close> followed by the decimal digits of the id, every id from \<open>26^3\<close> up to \<open>26^12\<close> to its
  bijective base-26 name over A to Z (\<open>26^3\<close> to YYZ, \<open>26^3 + 1\<close> to YZA), and every id from
  \<open>26^12 + 1\<close> on to \<open>A\<close> followed by the decimal digits again; it returns a name for every
  integer, given as a \<open>bigint\<close> or as its decimal text.
\<close>

theorem assetIdToName_regions:
  "assetIdToName rt (AssetBigInt 0) = Inr ''BTC''
   \<and> assetIdToName rt (AssetBigInt 1) = Inr ''XCP''
   \<and> (2 \<le> aid \<and> aid < 26 ^ 3 \<longrightarrow>
        assetIdToName rt (AssetBigInt aid) = Inr (CHR ''A'' # decimal aid))
   \<and> (26 ^ 3 \<le> aid \<and> aid < 26 ^ 12 + 1 \<longrightarrow>
        (\<exists>name. assetIdToName rt (AssetBigInt aid) = Inr name
                \<and> list_all isUpperAZ name \<and> int (b26Value name) = aid
                \<and> (\<forall>other. list_all isUpperAZ other \<and> int (b26Value other) = aid
                             \<longrightarrow> other = name)))
   \<and> assetIdToName rt (AssetBigInt 17576) = Inr ''YYZ''
   \<and> assetIdToName rt (AssetBigInt 17577) = Inr ''YZA''
   \<and> (26 ^ 12 + 1 \<le> aid \<longrightarrow>
        assetIdToName rt (AssetBigInt aid) = Inr (CHR ''A'' # decimal aid))
   \<and> (\<exists>name. assetIdToName rt (AssetBigInt aid) = Inr name)
   \<and> assetIdToName rt (AssetString (decimal aid)) = assetIdToName rt (AssetBigInt aid)
   \<and> parseDecimal (decimal aid) = Some aid"
proof -
  have alpha: "list_all isUpperAZ (alphaLoop aid []) \<and> int (b26Value (alphaLoop aid [])) = aid
      \<and> (\<forall>other. list_all isUpperAZ other \<and> int (b26Value other) = aid
                   \<longrightarrow> other = alphaLoop aid [])"
    if "26 ^ 3 \<le> aid" for aid :: int
  proof -
    have "0 \<le> aid" using that by simp
    from alphaLoop_value [OF this, of "[]"] alphaLoop_letters [of "[]" aid]
    have l: "list_all isUpperAZ (alphaLoop aid [])" and v: "int (b26Value (alphaLoop aid [])) = aid"
      by simp_all
    have "other = alphaLoop aid []"
      if "list_all isUpperAZ other" "int (b26Value other) = aid" for other
    proof -
      have "b26Value other = b26Value (alphaLoop aid [])" using that(2) v by simp
      from b26Value_unique [OF that(1) l this] show ?thesis .
    qed
    then show ?thesis using l v by blast
  qed
  have yyz: "alphaLoop 17576 [] = ''YYZ''" by code_simp
  have yza: "alphaLoop 17577 [] = ''YZA''" by code_simp
  show ?thesis
    using alpha [of aid]
    by (simp add: assetIdToName_def assetName_def yyz yza parseDecimal_decimal
          bigIntOfString_decimal)
qed

theorem assetIdToName_regions_witness:
  "assetIdToName exampleRuntime (AssetBigInt 5) = Inr ''A5''
   \<and> assetIdToName exampleRuntime (AssetBigInt 18279) = Inr ''AAAA''
   \<and> assetIdToName exampleRuntime (AssetBigInt 95428956661682177) = Inr ''A95428956661682177''"
proof -
  have a: "assetIdToName exampleRuntime (AssetBigInt 5) = Inr ''A5''"
    using assetIdToName_regions [of exampleRuntime 5]
    by (simp add: decimal_def decimalNat.simps digitChar_def)
  have c: "assetIdToName exampleRuntime (AssetBigInt 95428956661682177) = Inr ''A95428956661682177''"
    using assetIdToName_regions [of exampleRuntime 95428956661682177]
    by (simp add: decimal_def decimalNat.simps digitChar_def)
  from assetIdToName_regions [of exampleRuntime 18279]
  obtain name where n: "assetIdToName exampleRuntime (AssetBigInt 18279) = Inr name"
    and u: "\<forall>other. list_all isUpperAZ other \<and> int (b26Value other) = 18279 \<longrightarrow> other = name"
    by auto
  have "list_all isUpperAZ ''AAAA'' \<and> int (b26Value ''AAAA'') = 18279"
    by (simp add: isUpperAZ_def)
  then have "''AAAA'' = name" using u by blast
  then show ?thesis using a c n by simp
qed

text \<open>
  Claim C4, as amended. \<open>shortAddressBytesToAddress\<close> throws nothing, and it returns
  exactly \<open>0x\<close> followed by the hex of the input when the buffer is shorter than two bytes,
  when its tag is none of 0x01, 0x02, 0x03, 0x80 to 0x8F and the network's two version bytes,
  when the tag is 0x03 and the witness version and program length are not one of (0, 20),
  (0, 32), (1, 32), and when the tag is a segwit marker with such an unfit pair and is
  neither of the network's version bytes.
\<close>

theorem shortAddress_fallback:
  "fallbackCaseByDesign net buf \<Longrightarrow>
     shortAddressBytesToAddress rt (toHex buf) net = ''0x'' @ toHex buf"
proof -
  assume a: "fallbackCaseByDesign net buf"
  show ?thesis
  proof (cases "length buf < 2")
    case True
    then show ?thesis by (rule shortAddress_too_short)
  next
    case False
    then have l: "2 \<le> length buf" by simp
    from a False consider
        (unknown) "hd buf \<noteq> 0x01" "hd buf \<noteq> 0x02" "hd buf \<noteq> 0x03"
          "\<not> (0x80 \<le> hd buf \<and> hd buf \<le> 0x8f)"
          "unat (hd buf) \<noteq> pubKeyHash net" "unat (hd buf) \<noteq> scriptHash net"
      | (tag3) "hd buf = 0x03" "\<not> validWitnessProgram (hd (tl buf)) (length buf - 2)"
      | (marker) "0x80 \<le> hd buf" "hd buf \<le> 0x8f"
          "\<not> validWitnessProgram (hd buf - 0x80) (length buf - 1)"
          "unat (hd buf) \<noteq> pubKeyHash net" "unat (hd buf) \<noteq> scriptHash net"
      unfolding fallbackCaseByDesign_def by blast
    then show ?thesis
    proof cases
      case unknown
      then show ?thesis by (rule shortAddress_unknown_tag [OF l])
    next
      case tag3
      then show ?thesis by (rule shortAddress_tag3 [OF l])
    next
      case marker
      then show ?thesis by (rule shortAddress_marker_unfit [OF l])
    qed
  qed
qed

theorem shortAddress_fallback_witness:
  "fallbackCaseByDesign bitcoinNetwork [0x03, 0x00, 0xAA]
   \<and> shortAddressBytesToAddress exampleRuntime (toHex [0x03, 0x00, 0xAA]) bitcoinNetwork = ''0x0300aa''
   \<and> fallbackCaseByDesign bitcoinNetwork [0x8c, 0x11, 0x22]
   \<and> shortAddressBytesToAddress exampleRuntime (toHex [0x8c, 0x11, 0x22]) bitcoinNetwork = ''0x8c1122''"
proof -
  have h1: "fallbackCaseByDesign bitcoinNetwork [0x03, 0x00, 0xAA]"
    by (simp add: fallbackCaseByDesign_def validWitnessProgram_def)
  have h2: "fallbackCaseByDesign bitcoinNetwork [0x8c, 0x11, 0x22]"
    by (simp add: fallbackCaseByDesign_def validWitnessProgram_def bitcoinNetwork_def)
  show ?thesis
    using h1 h2 shortAddress_fallback [OF h1, of exampleRuntime]
      shortAddress_fallback [OF h2, of exampleRuntime]
    by (simp add: toHex_def byteHex_def hexDigit_def)
qed

text \<open>
  The claim as stated fails: on a network whose public-key-hash version byte lies in
  0x80 to 0x8F, a buffer tagged with that byte and carrying a 20-byte hash is a segwit
  marker with an unfit program (version 12), and the code goes on to the legacy branch and
  returns the address the payments library builds.
\<close>

theorem shortAddress_marker_counterexample:
  "fallbackCase dashTestnet (0x8c # replicate 20 0x11)
   \<and> shortAddressBytesToAddress exampleRuntime (toHex (0x8c # replicate 20 0x11)) dashTestnet
       \<noteq> ''0x'' @ toHex (0x8c # replicate 20 0x11)"
proof -
  have "fallbackCase dashTestnet (0x8c # replicate 20 0x11)"
    by (simp add: fallbackCase_def validWitnessProgram_def)
  moreover have "shortAddressBytesToAddress exampleRuntime (toHex (0x8c # replicate 20 0x11)) dashTestnet
       = ''p2pkh:'' @ toHex (replicate 20 0x11)"
    by (simp add: shortAddressBytesToAddress_def shortAddressTry_def fromHex_toHex Let_def
          legacyBase58_def dashTestnet_def exampleRuntime_def examplePayment_def addressOr_def)
  ultimately show ?thesis by simp
qed

text \<open>
  Claim C5. \<open>readMessageTypeId\<close> fails on the empty buffer; a non-zero first byte is the id
  (1 to 255) and the rest is everything after it; a zero first byte with fewer than five
  bytes in all fails; otherwise the id is the big-endian 32-bit number in bytes 1 to 4, any
  value from 0 to \<open>2^32 - 1\<close>, and the rest is everything after the fifth byte. The buffer
  00 00 00 04 D2 AA gives id 1234 and rest AA.
\<close>

theorem readMessageTypeId_framing:
  "readMessageTypeId [] = Inl (Error ''Empty message'')
   \<and> (b \<noteq> 0 \<longrightarrow> readMessageTypeId (b # rest) = Inr (uint b, rest) \<and> 1 \<le> uint b \<and> uint b \<le> 255)
   \<and> (length rest < 4 \<longrightarrow>
        readMessageTypeId (0 # rest) = Inl (Error ''Message too short for long ID''))
   \<and> readMessageTypeId (0 # b1 # b2 # b3 # b4 # rest)
        = Inr (uint b1 * 2 ^ 24 + uint b2 * 2 ^ 16 + uint b3 * 2 ^ 8 + uint b4, rest)
   \<and> (0 \<le> n \<and> n < 2 ^ 32 \<longrightarrow> readMessageTypeId (0 # be32 n @ rest) = Inr (n, rest))
   \<and> readMessageTypeId [0x00, 0x00, 0x00, 0x04, 0xD2, 0xAA] = Inr (1234, [0xAA])"
proof -
  have r: "1 \<le> uint b \<and> uint b \<le> 255" if "b \<noteq> 0"
  proof -
    have "uint b < 2 ^ LENGTH(8)" by (rule uint_lt2p)
    then have "uint b < 256" by simp
    moreover have "uint b \<noteq> 0" using that by (simp add: uint_0_iff)
    ultimately show ?thesis using uint_nonnegative [of b] by linarith
  qed
  have e: "readMessageTypeId [] = Inl (Error ''Empty message'')"
    by (simp add: readMessageTypeId_def)
  have x: "readMessageTypeId [0x00, 0x00, 0x00, 0x04, 0xD2, 0xAA] = Inr (1234, [0xAA])"
    by (simp add: readMessageTypeId_long)
  show ?thesis
    using r e x readMessageTypeId_short [of b rest] readMessageTypeId_too_short [of rest]
      readMessageTypeId_long [of b1 b2 b3 b4 rest] readMessageTypeId_be32 [of n rest]
    by blast
qed

theorem readMessageTypeId_framing_witness:
  "readMessageTypeId [0x02, 0x10, 0x20] = Inr (2, [0x10, 0x20])
   \<and> readMessageTypeId [0x00, 0x01, 0x02] = Inl (Error ''Message too short for long ID'')
   \<and> readMessageTypeId (0 # be32 7 @ [0xAA]) = Inr (7, [0xAA])"
  using readMessageTypeId_framing [of 2 "[0x10, 0x20]" 0 0 0 0 7]
    readMessageTypeId_framing [of 0 "[0x01, 0x02]" 0 0 0 0 0]
    readMessageTypeId_framing [of 0 "[0xAA]" 0 0 0 0 7]
  by simp

text \<open>
  Claim C6. \<open>parse_op_return\<close> returns the no-match value for an empty script and for a
  script whose first byte is not 0x6a. A candidate equal to the eight magic bytes gives the
  fixed \<open>taproot_commit\<close> message with id 0 and data \<open>CNTRPRTY\<close>. Any other candidate
  whose RC4 decryption under the txid bytes does not start with the magic, or is the magic
  alone, gives the no-match value: nothing is thrown and no Unknown message is built.
\<close>

theorem parse_op_return_no_match:
  "(scriptBuffer = [] \<or> hd scriptBuffer \<noteq> 0x6a \<longrightarrow>
      parse_op_return rt scriptBuffer txid net = None)
   \<and> (scriptBuffer \<noteq> [] \<and> hd scriptBuffer = 0x6a \<and> opReturnData scriptBuffer = PREFIX_BYTES \<longrightarrow>
        parse_op_return rt scriptBuffer txid net =
          Some \<lparr>message_name = ''taproot_commit'', message_id = 0,
                 params = TaprootCommit ''CNTRPRTY''\<rparr>)
   \<and> (opReturnData scriptBuffer \<noteq> PREFIX_BYTES
        \<and> (take 8 (rc4Decrypt (fromHex txid) (opReturnData scriptBuffer)) \<noteq> PREFIX_BYTES
            \<or> rc4Decrypt (fromHex txid) (opReturnData scriptBuffer) = PREFIX_BYTES) \<longrightarrow>
        parse_op_return rt scriptBuffer txid net = None)"
  using parse_op_return_not_op_return [of scriptBuffer rt txid net]
    parse_op_return_commit [of scriptBuffer rt txid net]
    parse_op_return_no_magic [of scriptBuffer txid rt net]
    parse_op_return_empty_message [of scriptBuffer txid rt net]
  by blast

theorem parse_op_return_no_match_witness:
  "parse_op_return exampleRuntime [0x76, 0xa9, 0x14] ''aa'' bitcoinNetwork = None
   \<and> parse_op_return exampleRuntime (0x6a # 0x08 # PREFIX_BYTES) ''aa'' bitcoinNetwork =
          Some \<lparr>message_name = ''taproot_commit'', message_id = 0,
                 params = TaprootCommit ''CNTRPRTY''\<rparr>
   \<and> parse_op_return exampleRuntime (0x6a # 0x03 # rc4Decrypt (fromHex ''aa'') [0x01, 0x02, 0x03])
         ''aa'' bitcoinNetwork = None"
proof -
  let ?c = "rc4Decrypt (fromHex ''aa'') [0x01, 0x02, 0x03]"
  have d: "opReturnData (0x6a # 0x03 # ?c) = ?c"
    by (simp add: opReturnData_def dataStart_def)
  have "length ?c = 3" by (simp add: length_rc4Decrypt)
  then have n: "?c \<noteq> PREFIX_BYTES" by (auto simp: PREFIX_BYTES_def)
  have t: "take 8 (rc4Decrypt (fromHex ''aa'') ?c) \<noteq> PREFIX_BYTES"
    by (simp add: rc4Decrypt_twice PREFIX_BYTES_def)
  have p: "opReturnData (0x6a # 0x08 # PREFIX_BYTES) = PREFIX_BYTES"
    by (simp add: opReturnData_def dataStart_def)
  show ?thesis
    using parse_op_return_no_match [of "[0x76, 0xa9, 0x14]" exampleRuntime "''aa''" bitcoinNetwork]
      parse_op_return_no_match [of "0x6a # 0x08 # PREFIX_BYTES" exampleRuntime "''aa''" bitcoinNetwork]
      parse_op_return_no_match [of "0x6a # 0x03 # ?c" exampleRuntime "''aa''" bitcoinNetwork]
      d n t p
    by simp
qed

text \<open>
  Claim C7, as amended. In the re-framing of an ord/xcp envelope, when the first element of
  the CBOR metadata array is an integer id \<open>n\<close>: for \<open>0 < n < 256\<close> the re-framed buffer
  starts with the single byte \<open>n\<close> (the short form); for \<open>n = 0\<close> and for
  \<open>256 \<le> n \<le> 2^32 - 1\<close> it starts with 0x00 and \<open>n\<close> as four big-endian bytes (the long
  form). In both cases \<open>readMessageTypeId\<close> reads \<open>n\<close> back from the buffer.
\<close>

theorem ordXcp_reframing_prefix:
  assumes "length mimeType \<le> 255" "wellFormedPushes pushes" "shortOrPushData1 pushes"
    and "cborDecode rt (pushedData pushes) = Inr (JArray (JInt n # rest))"
    and "cborEncode rt (JArray (rest @ [JString (utf8Decode rt mimeType)])) = Inr reencoded"
  shows "(0 < n \<and> n < 256 \<longrightarrow>
            extractFromEnvelope rt (ordXcpEnvelope mimeType pushes) = Some (word_of_int n # reencoded)
            \<and> readMessageTypeId (word_of_int n # reencoded) = Inr (n, reencoded))
         \<and> ((n = 0 \<or> 256 \<le> n) \<and> n \<le> 4294967295 \<longrightarrow>
            extractFromEnvelope rt (ordXcpEnvelope mimeType pushes) = Some (0 # be32 n @ reencoded)
            \<and> readMessageTypeId (0 # be32 n @ reencoded) = Inr (n, reencoded))"
proof -
  have e: "extractFromEnvelope rt (ordXcpEnvelope mimeType pushes)
             = (case bindE (messageTypeIdPrefix rt (JInt n)) (\<lambda>prefix. Inr (Some (prefix @ reencoded)))
                of Inl e \<Rightarrow> None | Inr r \<Rightarrow> r)"
    unfolding extractFromEnvelope_ordXcp [OF assms(1-3)] reframe_array [OF assms(4,5)] ..
  have s: "extractFromEnvelope rt (ordXcpEnvelope mimeType pushes) = Some (word_of_int n # reencoded)
            \<and> readMessageTypeId (word_of_int n # reencoded) = Inr (n, reencoded)"
    if "0 < n" "n < 256"
    using that e by (simp add: prefix_short readMessageTypeId_short_int)
  have l: "extractFromEnvelope rt (ordXcpEnvelope mimeType pushes) = Some (0 # be32 n @ reencoded)
            \<and> readMessageTypeId (0 # be32 n @ reencoded) = Inr (n, reencoded)"
    if h: "n = 0 \<or> 256 \<le> n" "n \<le> 4294967295"
  proof -
    have "0 \<le> n" "n < 2 ^ 32" using h by auto
    from readMessageTypeId_be32 [OF this, of reencoded] e prefix_long [OF h, of rt]
    show ?thesis by simp
  qed
  show ?thesis using s l by blast
qed

theorem ordXcp_reframing_prefix_witness:
  "extractFromEnvelope exampleRuntime
       (ordXcpEnvelope [0x74, 0x65, 0x78, 0x74] [(PushData1, [0x82, 0x03, 0x01])])
     = Some [0x03, 0x82, 0x01, 0x64, 0x74, 0x65, 0x78, 0x74]
   \<and> extractFromEnvelope exampleRuntime
       (ordXcpEnvelope [0x74, 0x65, 0x78, 0x74] [(ShortPush, [0x82, 0x00, 0x01])])
     = Some [0x00, 0x00, 0x00, 0x00, 0x00, 0x82, 0x01, 0x64, 0x74, 0x65, 0x78, 0x74]"
proof -
  let ?mime = "[0x74, 0x65, 0x78, 0x74] :: buffer"
  let ?enc = "[0x82, 0x01, 0x64, 0x74, 0x65, 0x78, 0x74] :: buffer"
  have m: "length ?mime \<le> 255" by simp
  have w1: "wellFormedPushes [(PushData1, [0x82, 0x03, 0x01])]"
    and w2: "wellFormedPushes [(ShortPush, [0x82, 0x00, 0x01])]"
    by (simp_all add: wellFormedPushes_def fitsPush_def)
  have k1: "shortOrPushData1 [(PushData1, [0x82, 0x03, 0x01])]"
    and k2: "shortOrPushData1 [(ShortPush, [0x82, 0x00, 0x01])]"
    by (simp_all add: shortOrPushData1_def)
  have d1: "cborDecode exampleRuntime (pushedData [(PushData1, [0x82, 0x03, 0x01])])
              = Inr (JArray (JInt 3 # [JInt 1]))"
    and d2: "cborDecode exampleRuntime (pushedData [(ShortPush, [0x82, 0x00, 0x01])])
              = Inr (JArray (JInt 0 # [JInt 1]))"
    by (simp_all add: exampleRuntime_def exampleCborDecode_def pushedData_def)
  have c: "cborEncode exampleRuntime (JArray ([JInt 1] @ [JString (utf8Decode exampleRuntime ?mime)]))
             = Inr ?enc"
    by (simp add: exampleRuntime_def exampleCborEncode_def exampleCborItem_def)
  show ?thesis
    using ordXcp_reframing_prefix [OF m w1 k1 d1 c] ordXcp_reframing_prefix [OF m w2 k2 d2 c]
    by (simp add: be32_def)
qed

text \<open>
  The claim as stated fails: the envelope whose metadata is the CBOR array [3, 1] is
  re-framed with the one-byte prefix 03, not with the five-byte prefix 00 00 00 00 03.
\<close>

theorem ordXcp_long_form_counterexample:
  "extractFromEnvelope exampleRuntime
       (ordXcpEnvelope [0x74, 0x65, 0x78, 0x74] [(ShortPush, [0x82, 0x03, 0x01])])
     = Some ([0x03] @ [0x82, 0x01, 0x64, 0x74, 0x65, 0x78, 0x74])
   \<and> extractFromEnvelope exampleRuntime
       (ordXcpEnvelope [0x74, 0x65, 0x78, 0x74] [(ShortPush, [0x82, 0x03, 0x01])])
     \<noteq> Some ([0x00, 0x00, 0x00, 0x00, 0x03] @ [0x82, 0x01, 0x64, 0x74, 0x65, 0x78, 0x74])"
  by code_simp

text \<open>
  Claim C8, as amended. Two generic envelopes that push the same logical message, each chunk
  as a direct push, PUSHDATA1, PUSHDATA2 or PUSHDATA4 of a length the encoding can express,
  give the same result from \<open>parse_reveal_tx\<close>: the decoding of the logical message. Two
  ord/xcp envelopes with the same MIME type that push the same CBOR metadata give the same
  result, the decoding of the re-framed metadata, when every chunk is a direct push or
  PUSHDATA1, the two encodings the ord/xcp scanner recognises.
\<close>

theorem parse_reveal_tx_push_width:
  "(wellFormedPushes pushes1 \<and> wellFormedPushes pushes2
      \<and> pushedData pushes1 = pushedData pushes2
      \<and> extractWitnessScript rt (fromHex hex1) = Some (genericEnvelope pushes1)
      \<and> extractWitnessScript rt (fromHex hex2) = Some (genericEnvelope pushes2) \<longrightarrow>
      parse_reveal_tx rt hex1 net = parse_reveal_tx rt hex2 net
      \<and> parse_reveal_tx rt hex1 net =
          (if pushedData pushes1 = [] then None
           else (case decodeMessage rt (pushedData pushes1) net of
                   Inl e \<Rightarrow> None
                 | Inr r \<Rightarrow> Some r)))
   \<and> (wellFormedPushes pushes1 \<and> wellFormedPushes pushes2
      \<and> shortOrPushData1 pushes1 \<and> shortOrPushData1 pushes2
      \<and> pushedData pushes1 = pushedData pushes2 \<and> length mimeType \<le> 255
      \<and> extractWitnessScript rt (fromHex hex1) = Some (ordXcpEnvelope mimeType pushes1)
      \<and> extractWitnessScript rt (fromHex hex2) = Some (ordXcpEnvelope mimeType pushes2) \<longrightarrow>
      parse_reveal_tx rt hex1 net = parse_reveal_tx rt hex2 net
      \<and> parse_reveal_tx rt hex1 net =
          (case reframe rt (pushedData pushes1) mimeType of
             Inl e \<Rightarrow> None
           | Inr None \<Rightarrow> None
           | Inr (Some message) \<Rightarrow>
               if message = [] then None
               else (case decodeMessage rt message net of
                       Inl e \<Rightarrow> None
                     | Inr r \<Rightarrow> Some r)))"
proof -
  have g: "parse_reveal_tx rt hex1 net = parse_reveal_tx rt hex2 net
      \<and> parse_reveal_tx rt hex1 net =
          (if pushedData pushes1 = [] then None
           else (case decodeMessage rt (pushedData pushes1) net of
                   Inl e \<Rightarrow> None
                 | Inr r \<Rightarrow> Some r))"
    if h: "wellFormedPushes pushes1" "wellFormedPushes pushes2"
      "pushedData pushes1 = pushedData pushes2"
      "extractWitnessScript rt (fromHex hex1) = Some (genericEnvelope pushes1)"
      "extractWitnessScript rt (fromHex hex2) = Some (genericEnvelope pushes2)"
    using parse_reveal_generic [OF h(4) h(1), of net] parse_reveal_generic [OF h(5) h(2), of net] h(3)
    by simp
  have x: "parse_reveal_tx rt hex1 net = parse_reveal_tx rt hex2 net
      \<and> parse_reveal_tx rt hex1 net =
          (case reframe rt (pushedData pushes1) mimeType of
             Inl e \<Rightarrow> None
           | Inr None \<Rightarrow> None
           | Inr (Some message) \<Rightarrow>
               if message = [] then None
               else (case decodeMessage rt message net of
                       Inl e \<Rightarrow> None
                     | Inr r \<Rightarrow> Some r))"
    if h: "wellFormedPushes pushes1" "wellFormedPushes pushes2"
      "shortOrPushData1 pushes1" "shortOrPushData1 pushes2"
      "pushedData pushes1 = pushedData pushes2" "length mimeType \<le> 255"
      "extractWitnessScript rt (fromHex hex1) = Some (ordXcpEnvelope mimeType pushes1)"
      "extractWitnessScript rt (fromHex hex2) = Some (ordXcpEnvelope mimeType pushes2)"
    using parse_reveal_ordXcp [OF h(7) h(6) h(1) h(3), of net]
      parse_reveal_ordXcp [OF h(8) h(6) h(2) h(4), of net] h(5)
    by simp
  show ?thesis using g x by blast
qed

theorem parse_reveal_tx_push_width_witness:
  "parse_reveal_tx exampleRuntime
       (toHex (genericEnvelope [(ShortPush, [0x03, 0x01, 0x02])])) bitcoinNetwork
     = parse_reveal_tx exampleRuntime
       (toHex (genericEnvelope [(PushData4, [0x03]), (PushData2, [0x01]), (PushData1, [0x02])]))
       bitcoinNetwork
   \<and> parse_reveal_tx exampleRuntime
       (toHex (genericEnvelope [(ShortPush, [0x03, 0x01, 0x02])])) bitcoinNetwork
     = Some \<lparr>message_name = ''mpma_send'', message_id = 3, params = Unknown ''0102'' None\<rparr>
   \<and> parse_reveal_tx exampleRuntime
       (toHex (ordXcpEnvelope [0x74, 0x65, 0x78, 0x74] [(ShortPush, [0x82, 0x03, 0x01])]))
       bitcoinNetwork
     = parse_reveal_tx exampleRuntime
       (toHex (ordXcpEnvelope [0x74, 0x65, 0x78, 0x74] [(PushData1, [0x82, 0x03]), (ShortPush, [0x01])]))
       bitcoinNetwork"
proof -
  let ?p1 = "[(ShortPush, [0x03, 0x01, 0x02 :: byte])]"
  let ?p2 = "[(PushData4, [0x03 :: byte]), (PushData2, [0x01]), (PushData1, [0x02])]"
  let ?q1 = "[(ShortPush, [0x82, 0x03, 0x01 :: byte])]"
  let ?q2 = "[(PushData1, [0x82, 0x03 :: byte]), (ShortPush, [0x01])]"
  let ?mime = "[0x74, 0x65, 0x78, 0x74] :: buffer"
  have w: "wellFormedPushes ?p1" "wellFormedPushes ?p2" "wellFormedPushes ?q1" "wellFormedPushes ?q2"
    by (simp_all add: wellFormedPushes_def fitsPush_def)
  have k: "shortOrPushData1 ?q1" "shortOrPushData1 ?q2"
    by (simp_all add: shortOrPushData1_def)
  have d: "pushedData ?p1 = pushedData ?p2" "pushedData ?q1 = pushedData ?q2"
    by (simp_all add: pushedData_def)
  have m: "length ?mime \<le> 255" by simp
  have s1: "extractWitnessScript exampleRuntime (fromHex (toHex (genericEnvelope ?p1)))
              = Some (genericEnvelope ?p1)"
    by (rule exampleRuntime_witness_script) (simp_all add: genericEnvelope_def)
  have s2: "extractWitnessScript exampleRuntime (fromHex (toHex (genericEnvelope ?p2)))
              = Some (genericEnvelope ?p2)"
    by (rule exampleRuntime_witness_script) (simp_all add: genericEnvelope_def)
  have s3: "extractWitnessScript exampleRuntime (fromHex (toHex (ordXcpEnvelope ?mime ?q1)))
              = Some (ordXcpEnvelope ?mime ?q1)"
    by (rule exampleRuntime_witness_script) (simp_all add: ordXcpEnvelope_def)
  have s4: "extractWitnessScript exampleRuntime (fromHex (toHex (ordXcpEnvelope ?mime ?q2)))
              = Some (ordXcpEnvelope ?mime ?q2)"
    by (rule exampleRuntime_witness_script) (simp_all add: ordXcpEnvelope_def)
  note t1 = parse_reveal_tx_push_width
    [of ?p1 ?p2 exampleRuntime "toHex (genericEnvelope ?p1)" "toHex (genericEnvelope ?p2)"
        bitcoinNetwork ?mime, THEN conjunct1]
  note t2 = parse_reveal_tx_push_width
    [of ?q1 ?q2 exampleRuntime "toHex (ordXcpEnvelope ?mime ?q1)" "toHex (ordXcpEnvelope ?mime ?q2)"
        bitcoinNetwork ?mime, THEN conjunct2]
  have dm: "decodeMessage exampleRuntime [0x03, 0x01, 0x02] bitcoinNetwork
              = Inr \<lparr>message_name = ''mpma_send'', message_id = 3, params = Unknown ''0102'' None\<rparr>"
    using decodeMessage_3 [of "[0x03, 0x01, 0x02]" "[0x01, 0x02]" exampleRuntime bitcoinNetwork]
    by (simp add: readMessageTypeId_short toHex_def byteHex_def hexDigit_def)
  have ab: "parse_reveal_tx exampleRuntime (toHex (genericEnvelope ?p1)) bitcoinNetwork
            = parse_reveal_tx exampleRuntime (toHex (genericEnvelope ?p2)) bitcoinNetwork
          \<and> parse_reveal_tx exampleRuntime (toHex (genericEnvelope ?p1)) bitcoinNetwork =
              (if pushedData ?p1 = [] then None
               else (case decodeMessage exampleRuntime (pushedData ?p1) bitcoinNetwork of
                       Inl e \<Rightarrow> None
                     | Inr r \<Rightarrow> Some r))"
    using t1 w(1,2) d(1) s1 s2 by blast
  have pd: "pushedData ?p1 = [0x03, 0x01, 0x02]" by (simp add: pushedData_def)
  have a: "parse_reveal_tx exampleRuntime (toHex (genericEnvelope ?p1)) bitcoinNetwork
            = parse_reveal_tx exampleRuntime (toHex (genericEnvelope ?p2)) bitcoinNetwork"
    using ab by blast
  have b: "parse_reveal_tx exampleRuntime (toHex (genericEnvelope ?p1)) bitcoinNetwork
            = Some \<lparr>message_name = ''mpma_send'', message_id = 3, params = Unknown ''0102'' None\<rparr>"
    using ab [THEN conjunct2] unfolding pd dm by simp
  have c: "parse_reveal_tx exampleRuntime (toHex (ordXcpEnvelope ?mime ?q1)) bitcoinNetwork
            = parse_reveal_tx exampleRuntime (toHex (ordXcpEnvelope ?mime ?q2)) bitcoinNetwork"
    using t2 w(3,4) k d(2) m s3 s4 by blast
  show ?thesis using a b c by blast
qed

text \<open>
  The claim as stated fails in the ord/xcp envelope: with the metadata chunk 82 03 01
  pushed directly the transaction parses to a message, with the same chunk pushed by
  PUSHDATA2 the scanner skips the opcode 0x4d, reads the length bytes as opcodes, collects
  00 82 03 and 68, and nothing is parsed.
\<close>

theorem ordXcp_pushdata2_counterexample:
  "fitsPush ShortPush [0x82, 0x03, 0x01] \<and> fitsPush PushData2 [0x82, 0x03, 0x01]
   \<and> parse_reveal_tx exampleRuntime
        (toHex (ordXcpEnvelope [0x74, 0x65, 0x78, 0x74] [(ShortPush, [0x82, 0x03, 0x01])]))
        bitcoinNetwork
      = Some \<lparr>message_name = ''mpma_send'', message_id = 3,
               params = Unknown ''82016474657874'' None\<rparr>
   \<and> parse_reveal_tx exampleRuntime
        (toHex (ordXcpEnvelope [0x74, 0x65, 0x78, 0x74] [(PushData2, [0x82, 0x03, 0x01])]))
        bitcoinNetwork
      = None"
proof -
  let ?mime = "[0x74, 0x65, 0x78, 0x74] :: buffer"
  let ?short = "ordXcpEnvelope ?mime [(ShortPush, [0x82, 0x03, 0x01])]"
  let ?wide = "ordXcpEnvelope ?mime [(PushData2, [0x82, 0x03, 0x01])]"
  have f: "fitsPush ShortPush [0x82, 0x03, 0x01]" "fitsPush PushData2 [0x82, 0x03, 0x01]"
    by (simp_all add: fitsPush_def)
  have s1: "extractWitnessScript exampleRuntime (fromHex (toHex ?short)) = Some ?short"
    by (rule exampleRuntime_witness_script) (simp_all add: ordXcpEnvelope_def)
  have s2: "extractWitnessScript exampleRuntime (fromHex (toHex ?wide)) = Some ?wide"
    by (rule exampleRuntime_witness_script) (simp_all add: ordXcpEnvelope_def)
  have e1: "extractFromEnvelope exampleRuntime ?short
              = Some [0x03, 0x82, 0x01, 0x64, 0x74, 0x65, 0x78, 0x74]"
    by code_simp
  have e2: "extractFromEnvelope exampleRuntime ?wide = None"
    by code_simp
  have dm: "decodeMessage exampleRuntime [0x03, 0x82, 0x01, 0x64, 0x74, 0x65, 0x78, 0x74] bitcoinNetwork
              = Inr \<lparr>message_name = ''mpma_send'', message_id = 3,
                      params = Unknown ''82016474657874'' None\<rparr>"
    using decodeMessage_3 [of "[0x03, 0x82, 0x01, 0x64, 0x74, 0x65, 0x78, 0x74]"
                              "[0x82, 0x01, 0x64, 0x74, 0x65, 0x78, 0x74]" exampleRuntime bitcoinNetwork]
    by (simp add: readMessageTypeId_short toHex_def byteHex_def hexDigit_def)
  have y: "parse_reveal_tx exampleRuntime (toHex ?short) bitcoinNetwork
             = Some \<lparr>message_name = ''mpma_send'', message_id = 3,
                      params = Unknown ''82016474657874'' None\<rparr>"
    by (simp only: parse_reveal_tx_def Let_def s1 e1 dm option.case sum.case list.size
          length_Cons) simp
  have n: "parse_reveal_tx exampleRuntime (toHex ?wide) bitcoinNetwork = None"
    by (simp only: parse_reveal_tx_def Let_def s2 e2 option.case)
  show ?thesis using f y n by blast
qed

text \<open>
  Claim C9. \<open>decodeDestroy\<close> accepts every payload of at least 16 bytes. With exactly
  16 bytes there is no tag; with more, the tag is the hex of the bytes from offset 16 up to
  offset 50 or the end, whichever comes first. Bytes from offset 50 on are dropped, not
  rejected: the result is that of the first 50 bytes alone.
\<close>

theorem decodeDestroy_truncates_tag:
  "16 \<le> length payload \<Longrightarrow>
     decodeDestroy rt payload =
       Inr (Destroy (assetName (int (beNat (take 8 payload))))
                    (decimal (signed64 (beNat (take 8 (drop 8 payload)))))
                    (if length payload = 16 then None
                     else Some (toHex (subarray payload 16 (min (length payload) 50)))))
     \<and> (50 \<le> length payload \<longrightarrow> decodeDestroy rt payload = decodeDestroy rt (take 50 payload))"
  using decodeDestroy_ok [of payload rt] decodeDestroy_drops_tail [of payload rt]
  by (simp add: subarray_def)

theorem decodeDestroy_truncates_tag_witness:
  "16 \<le> length ([0, 0, 0, 0, 0, 0, 0, 0, 0, 0, 0, 0, 0, 0, 0, 7] @ replicate 40 (0xAB :: byte))
   \<and> decodeDestroy exampleRuntime ([0, 0, 0, 0, 0, 0, 0, 0, 0, 0, 0, 0, 0, 0, 0, 7] @ replicate 40 0xAB)
       = Inr (Destroy ''BTC'' ''7'' (Some (toHex (replicate 34 0xAB))))
   \<and> decodeDestroy exampleRuntime ([0, 0, 0, 0, 0, 0, 0, 0, 0, 0, 0, 0, 0, 0, 0, 7] @ replicate 40 0xAB)
       = decodeDestroy exampleRuntime
           (take 50 ([0, 0, 0, 0, 0, 0, 0, 0, 0, 0, 0, 0, 0, 0, 0, 7] @ replicate 40 0xAB))"
proof -
  let ?p = "[0, 0, 0, 0, 0, 0, 0, 0, 0, 0, 0, 0, 0, 0, 0, 7] @ replicate 40 (0xAB :: byte)"
  have l: "16 \<le> length ?p" by simp
  note t = decodeDestroy_truncates_tag [OF l, of exampleRuntime]
  have v: "decodeDestroy exampleRuntime ?p
             = Inr (Destroy ''BTC'' ''7'' (Some (toHex (replicate 34 0xAB))))"
    using t [THEN conjunct1]
    by (simp add: beNat_def assetName_def signed64_def decimal_def decimalNat.simps digitChar_def
          subarray_def)
  have "50 \<le> length ?p" by simp
  then have w: "decodeDestroy exampleRuntime ?p = decodeDestroy exampleRuntime (take 50 ?p)"
    using t [THEN conjunct2] by blast
  show ?thesis using l v w by blast
qed

text \<open>
  Claim C10. Id 3 has the name \<open>mpma_send\<close> in the registry and no decoder in the dispatch
  table. So a framed message with type id 3, from either parser, is returned with
  \<open>message_name\<close> \<open>mpma_send\<close> and with \<open>params\<close> the Unknown payload that holds the hex
  of the payload and no error.
\<close>

theorem mpma_send_unknown_shape:
  "MESSAGE_TYPES 3 = Some ''mpma_send''
   \<and> decoderTable rt 3 = None
   \<and> (readMessageTypeId message = Inr (3, payload) \<longrightarrow>
        decodeMessage rt message net =
          Inr \<lparr>message_name = ''mpma_send'', message_id = 3,
                params = Unknown (toHex payload) None\<rparr>)
   \<and> (scriptBuffer \<noteq> [] \<and> hd scriptBuffer = 0x6a
        \<and> rc4Decrypt (fromHex txid) (opReturnData scriptBuffer) = PREFIX_BYTES @ message
        \<and> readMessageTypeId message = Inr (3, payload) \<longrightarrow>
        parse_op_return rt scriptBuffer txid net =
          Some \<lparr>message_name = ''mpma_send'', message_id = 3,
                 params = Unknown (toHex payload) None\<rparr>)
   \<and> (extractWitnessScript rt (fromHex revealTxHex) = Some witnessScript
        \<and> extractFromEnvelope rt witnessScript = Some message
        \<and> readMessageTypeId message = Inr (3, payload) \<longrightarrow>
        parse_reveal_tx rt revealTxHex net =
          Some \<lparr>message_name = ''mpma_send'', message_id = 3,
                 params = Unknown (toHex payload) None\<rparr>)"
proof -
  have a: "MESSAGE_TYPES 3 = Some ''mpma_send''" by (simp add: MESSAGE_TYPES_def)
  have b: "decoderTable rt 3 = None" by (simp add: decoderTable_def)
  have ne: "message \<noteq> []" if "readMessageTypeId message = Inr (3, payload)"
    using that by (auto simp: readMessageTypeId_def)
  have c: "parse_op_return rt scriptBuffer txid net =
          Some \<lparr>message_name = ''mpma_send'', message_id = 3,
                 params = Unknown (toHex payload) None\<rparr>"
    if h: "scriptBuffer \<noteq> []" "hd scriptBuffer = 0x6a"
      "rc4Decrypt (fromHex txid) (opReturnData scriptBuffer) = PREFIX_BYTES @ message"
      "readMessageTypeId message = Inr (3, payload)"
  proof -
    have "length (opReturnData scriptBuffer) = length (PREFIX_BYTES @ message)"
      using h(3) length_rc4Decrypt [of "fromHex txid" "opReturnData scriptBuffer"] by simp
    then have "opReturnData scriptBuffer \<noteq> PREFIX_BYTES" using ne [OF h(4)] by auto
    from parse_op_return_message [OF h(1,2) this h(3) ne [OF h(4)], of rt net]
      decodeMessage_3 [OF h(4), of rt net]
    show ?thesis by simp
  qed
  have d: "parse_reveal_tx rt revealTxHex net =
          Some \<lparr>message_name = ''mpma_send'', message_id = 3,
                 params = Unknown (toHex payload) None\<rparr>"
    if h: "extractWitnessScript rt (fromHex revealTxHex) = Some witnessScript"
      "extractFromEnvelope rt witnessScript = Some message"
      "readMessageTypeId message = Inr (3, payload)"
    using h ne [OF h(3)] decodeMessage_3 [OF h(3), of rt net]
    by (simp add: parse_reveal_tx_def)
  show ?thesis using a b c d decodeMessage_3 [of message payload rt net] by blast
qed

theorem mpma_send_unknown_shape_witness:
  "decodeMessage exampleRuntime [0x03, 0x01, 0x02] bitcoinNetwork
     = Inr \<lparr>message_name = ''mpma_send'', message_id = 3,
             params = Unknown (toHex [0x01, 0x02]) None\<rparr>
   \<and> parse_op_return exampleRuntime
         (0x6a # 0x0b # rc4Decrypt (fromHex ''aa'') (PREFIX_BYTES @ [0x03, 0x01, 0x02]))
         ''aa'' bitcoinNetwork
     = Some \<lparr>message_name = ''mpma_send'', message_id = 3,
              params = Unknown (toHex [0x01, 0x02]) None\<rparr>
   \<and> parse_reveal_tx exampleRuntime
         (toHex (genericEnvelope [(ShortPush, [0x03, 0x01, 0x02])])) bitcoinNetwork
     = Some \<lparr>message_name = ''mpma_send'', message_id = 3,
              params = Unknown (toHex [0x01, 0x02]) None\<rparr>"
proof -
  let ?c = "rc4Decrypt (fromHex ''aa'') (PREFIX_BYTES @ [0x03, 0x01, 0x02])"
  let ?s = "0x6a # 0x0b # ?c"
  let ?env = "genericEnvelope [(ShortPush, [0x03, 0x01, 0x02])]"
  have h: "?s \<noteq> []" "hd ?s = 0x6a" by simp_all
  have d: "opReturnData ?s = ?c"
    by (simp add: opReturnData_def dataStart_def)
  have r: "rc4Decrypt (fromHex ''aa'') (opReturnData ?s) = PREFIX_BYTES @ [0x03, 0x01, 0x02]"
    by (simp only: d rc4Decrypt_twice)
  have m: "readMessageTypeId [0x03, 0x01, 0x02] = Inr (3, [0x01, 0x02])"
    by (simp add: readMessageTypeId_short)
  have ws: "extractWitnessScript exampleRuntime (fromHex (toHex ?env)) = Some ?env"
    by (rule exampleRuntime_witness_script) (simp_all add: genericEnvelope_def)
  have "wellFormedPushes [(ShortPush, [0x03, 0x01, 0x02])]"
    by (simp add: wellFormedPushes_def fitsPush_def)
  from extractFromEnvelope_generic [OF this, of exampleRuntime]
  have ee: "extractFromEnvelope exampleRuntime ?env = Some [0x03, 0x01, 0x02]"
    by (simp add: pushedData_def)
  note t = mpma_send_unknown_shape
    [where rt = exampleRuntime and message = "[0x03, 0x01, 0x02]" and payload = "[0x01, 0x02]"
       and net = bitcoinNetwork and scriptBuffer = ?s and txid = "''aa''"
       and revealTxHex = "toHex ?env" and witnessScript = ?env]
  show ?thesis using t h r m ws ee by blast
qed

end
